theory Spec2Isabelle
  imports Complex_Main "HOL-Library.AList" "HOL-Library.Sublist"
begin

section \<open>Python values\<close>

text \<open>
  The callback and the helpers work on the JSON-shaped values that Dash hands over:
  \<^verbatim>\<open>None\<close>, booleans, numbers, strings, lists and dictionaries with string keys.
  A dictionary is an association list in insertion order (keys unique, as in Python).
  Numbers are real numbers: Python's \<^verbatim>\<open>int\<close> and \<^verbatim>\<open>float\<close> are not told apart and
  the rounding of binary floating point is not modelled. Strings are lists of
  \<^typ>\<open>char\<close>, read as the code points below 256; case mapping and white space
  are those Python has for these code points.
\<close>

datatype pyval =
    PNone
  | PBool bool
  | PNum real
  | PStr string
  | PList "pyval list"
  | PDict "(string \<times> pyval) list"

datatype pyerr =
    PreventUpdate
  | AttributeError
  | KeyError
  | TypeError
  | ValueError
  | JSONDecodeError
  | SqliteError

text \<open>Truth value testing (\<^verbatim>\<open>if x:\<close>, \<^verbatim>\<open>not x\<close>, \<^verbatim>\<open>a and b\<close>).\<close>

fun truthy :: "pyval \<Rightarrow> bool" where
  "truthy PNone = False"
| "truthy (PBool b) = b"
| "truthy (PNum x) = (x \<noteq> 0)"
| "truthy (PStr s) = (s \<noteq> [])"
| "truthy (PList xs) = (xs \<noteq> [])"
| "truthy (PDict d) = (d \<noteq> [])"

text \<open>
  Python's \<^verbatim>\<open>==\<close>: \<^verbatim>\<open>True == 1\<close>, lists compare element by element, dictionaries
  compare as sets of items.
\<close>

function (sequential) py_eq :: "pyval \<Rightarrow> pyval \<Rightarrow> bool" where
  "py_eq PNone PNone = True"
| "py_eq (PBool a) (PBool b) = (a = b)"
| "py_eq (PBool a) (PNum x) = (of_bool a = x)"
| "py_eq (PNum x) (PBool b) = (x = of_bool b)"
| "py_eq (PNum x) (PNum y) = (x = y)"
| "py_eq (PStr s) (PStr t) = (s = t)"
| "py_eq (PList xs) (PList ys) =
     (length xs = length ys \<and> list_all (\<lambda>(x, y). py_eq x y) (zip xs ys))"
| "py_eq (PDict d) (PDict e) =
     (length d = length e \<and>
      list_all (\<lambda>(k, v). list_ex (\<lambda>(k', w). k = k' \<and> py_eq v w) e) d)"
| "py_eq _ _ = False"
  by pat_completeness auto
termination
proof (relation "measure (\<lambda>(a, b). size a + size b)", goal_cases)
  case 1
  show ?case by simp
next
  case (2 xs ys p x y)
  then have "x \<in> set xs" and "y \<in> set ys"
    by (auto dest: set_zip_leftD set_zip_rightD)
  then have "size x \<le> size_list size xs" and "size y \<le> size_list size ys"
    by (simp_all add: size_list_estimation')
  then show ?case by simp
next
  case (3 d e p k v q k' w)
  then have "size v \<le> size_list (size_prod (\<lambda>_. 0) size) d"
    and "size w \<le> size_list (size_prod (\<lambda>_. 0) size) e"
    by (auto intro!: size_list_estimation' [where y = "size v" and x = "(k, v)"]
        size_list_estimation' [where y = "size w" and x = "(k', w)"])
  then show ?case by simp
qed

section \<open>Strings\<close>

text \<open>
  \<^verbatim>\<open>str.lower()\<close> character by character: the letters A to Z and the upper-case
  letters of the range 0xC0 to 0xDE (all but the multiplication sign 0xD7) move up by
  0x20; every other code point below 256 stays.
\<close>

definition upper_letters :: "char list" where
  "upper_letters =
     ''ABCDEFGHIJKLMNOPQRSTUVWXYZ'' @
       [CHR 0xC0, CHR 0xC1, CHR 0xC2, CHR 0xC3, CHR 0xC4, CHR 0xC5, CHR 0xC6, CHR 0xC7,
        CHR 0xC8, CHR 0xC9, CHR 0xCA, CHR 0xCB, CHR 0xCC, CHR 0xCD, CHR 0xCE, CHR 0xCF,
        CHR 0xD0, CHR 0xD1, CHR 0xD2, CHR 0xD3, CHR 0xD4, CHR 0xD5, CHR 0xD6, CHR 0xD8,
        CHR 0xD9, CHR 0xDA, CHR 0xDB, CHR 0xDC, CHR 0xDD, CHR 0xDE]"

definition lower_letters :: "char list" where
  "lower_letters =
     ''abcdefghijklmnopqrstuvwxyz'' @
       [CHR 0xE0, CHR 0xE1, CHR 0xE2, CHR 0xE3, CHR 0xE4, CHR 0xE5, CHR 0xE6, CHR 0xE7,
        CHR 0xE8, CHR 0xE9, CHR 0xEA, CHR 0xEB, CHR 0xEC, CHR 0xED, CHR 0xEE, CHR 0xEF,
        CHR 0xF0, CHR 0xF1, CHR 0xF2, CHR 0xF3, CHR 0xF4, CHR 0xF5, CHR 0xF6, CHR 0xF8,
        CHR 0xF9, CHR 0xFA, CHR 0xFB, CHR 0xFC, CHR 0xFD, CHR 0xFE]"

definition lower_char :: "char \<Rightarrow> char" where
  "lower_char c =
     (case map_of (zip upper_letters lower_letters) c of Some d \<Rightarrow> d | None \<Rightarrow> c)"

text \<open>The upper-case form of an ASCII letter (used on hexadecimal digits only).\<close>

definition upper_char :: "char \<Rightarrow> char" where
  "upper_char c =
     (case map_of (zip ''abcdefghijklmnopqrstuvwxyz'' ''ABCDEFGHIJKLMNOPQRSTUVWXYZ'') c of
        Some d \<Rightarrow> d
      | None \<Rightarrow> c)"

text \<open>\<^verbatim>\<open>s.lower()\<close>.\<close>

definition py_lower :: "string \<Rightarrow> string" where
  "py_lower s = map lower_char s"

text \<open>\<^verbatim>\<open>q in s\<close> on two strings: \<open>q\<close> occurs in \<open>s\<close> as a contiguous run.\<close>

fun py_in_str :: "string \<Rightarrow> string \<Rightarrow> bool" where
  "py_in_str q [] = (q = [])"
| "py_in_str q (c # cs) = (prefix q (c # cs) \<or> py_in_str q cs)"

text \<open>
  White space as \<^verbatim>\<open>str.split()\<close> and \<^verbatim>\<open>str.strip()\<close> see it: tab, line feed, vertical
  tab, form feed, carriage return, the four separators 0x1C to 0x1F, space, next line
  (0x85) and no-break space (0xA0).
\<close>

definition is_space :: "char \<Rightarrow> bool" where
  "is_space c \<longleftrightarrow>
     c \<in> set [CHR 0x09, CHR 0x0A, CHR 0x0B, CHR 0x0C, CHR 0x0D,
              CHR 0x1C, CHR 0x1D, CHR 0x1E, CHR 0x1F, CHR '' '', CHR 0x85, CHR 0xA0]"

text \<open>
  White space as \<^verbatim>\<open>int()\<close> skips it around a number: the same without the four
  separators 0x1C to 0x1F.
\<close>

definition is_int_space :: "char \<Rightarrow> bool" where
  "is_int_space c \<longleftrightarrow>
     c \<in> set [CHR 0x09, CHR 0x0A, CHR 0x0B, CHR 0x0C, CHR 0x0D, CHR '' '', CHR 0x85, CHR 0xA0]"

text \<open>\<^verbatim>\<open>s.strip()\<close>.\<close>

definition py_strip :: "string \<Rightarrow> string" where
  "py_strip s = rev (dropWhile is_space (rev (dropWhile is_space s)))"

text \<open>
  \<^verbatim>\<open>s.split()\<close>: the maximal runs of characters that are not white space, in order.
  \<open>cur\<close> is the run being read.
\<close>

fun split_acc :: "string \<Rightarrow> string \<Rightarrow> string list" where
  "split_acc cur [] = (if cur = [] then [] else [cur])"
| "split_acc cur (c # cs) =
     (if is_space c then (if cur = [] then split_acc [] cs else cur # split_acc [] cs)
      else split_acc (cur @ [c]) cs)"

definition py_split :: "string \<Rightarrow> string list" where
  "py_split s = split_acc [] s"

text \<open>\<^verbatim>\<open>' '.join(ws)\<close>.\<close>

fun join_sp :: "string list \<Rightarrow> string" where
  "join_sp [] = []"
| "join_sp [w] = w"
| "join_sp (w # v # ws) = w @ CHR '' '' # join_sp (v # ws)"

text \<open>\<^verbatim>\<open>s.replace('_', ' ')\<close>.\<close>

definition replace_underscores :: "string \<Rightarrow> string" where
  "replace_underscores s = map (\<lambda>c. if c = CHR ''_'' then CHR '' '' else c) s"

section \<open>Text matcher: \<^verbatim>\<open>perform_fuzzy_search\<close>\<close>

text \<open>
  The list comprehension \<^verbatim>\<open>[label for label in all_labels if q in label.lower()]\<close>;
  \<^verbatim>\<open>label.lower()\<close> raises on a label that is not a string.
\<close>

fun matching :: "string \<Rightarrow> pyval list \<Rightarrow> pyerr + pyval list" where
  "matching q [] = Inr []"
| "matching q (PStr l # ls) =
     (case matching q ls of
        Inl e \<Rightarrow> Inl e
      | Inr r \<Rightarrow> Inr (if py_in_str q (py_lower l) then PStr l # r else r))"
| "matching q (_ # ls) = Inl AttributeError"

definition perform_fuzzy_search :: "pyval \<Rightarrow> pyval list \<Rightarrow> pyval list" where
  "perform_fuzzy_search search_value all_labels =
     (if \<not> truthy search_value then []
      else case search_value of
             PStr s \<Rightarrow>
               (case matching (py_lower s) all_labels of Inl e \<Rightarrow> [] | Inr r \<Rightarrow> r)
           | _ \<Rightarrow> [])"

section \<open>Color deriver: \<^verbatim>\<open>lighten_color\<close>\<close>

definition hexval :: "char \<Rightarrow> int option" where
  "hexval c =
     map_of
       [(CHR ''0'', 0), (CHR ''1'', 1), (CHR ''2'', 2), (CHR ''3'', 3), (CHR ''4'', 4),
        (CHR ''5'', 5), (CHR ''6'', 6), (CHR ''7'', 7), (CHR ''8'', 8), (CHR ''9'', 9),
        (CHR ''a'', 10), (CHR ''b'', 11), (CHR ''c'', 12), (CHR ''d'', 13), (CHR ''e'', 14),
        (CHR ''f'', 15),
        (CHR ''A'', 10), (CHR ''B'', 11), (CHR ''C'', 12), (CHR ''D'', 13), (CHR ''E'', 14),
        (CHR ''F'', 15)] c"

text \<open>
  \<^verbatim>\<open>int(s, 16)\<close> on a slice \<^verbatim>\<open>hex_color[i:i+2]\<close>, which has at most two characters:
  the white space that \<^verbatim>\<open>int()\<close> skips is dropped at both ends, then one or two
  hexadecimal digits, or a sign and one digit, are accepted; anything else is a
  \<^verbatim>\<open>ValueError\<close>.
\<close>

definition int16_slice :: "string \<Rightarrow> pyerr + int" where
  "int16_slice s =
     (case rev (dropWhile is_int_space (rev (dropWhile is_int_space s))) of
        [c] \<Rightarrow> (case hexval c of Some v \<Rightarrow> Inr v | None \<Rightarrow> Inl ValueError)
      | [c, d] \<Rightarrow>
          (case hexval d of
             None \<Rightarrow> Inl ValueError
           | Some w \<Rightarrow>
               if c = CHR ''+'' then Inr w
               else if c = CHR ''-'' then Inr (- w)
               else (case hexval c of Some v \<Rightarrow> Inr (16 * v + w) | None \<Rightarrow> Inl ValueError))
      | _ \<Rightarrow> Inl ValueError)"

definition hex_digit :: "nat \<Rightarrow> char" where
  "hex_digit d = ''0123456789ABCDEF'' ! d"

function to_hex :: "nat \<Rightarrow> string" where
  "to_hex n = (if n < 16 then [hex_digit n] else to_hex (n div 16) @ [hex_digit (n mod 16)])"
  by pat_completeness auto
termination
  by (relation "measure id") auto

text \<open>\<^verbatim>\<open>'{:02X}'.format(n)\<close>: upper-case hexadecimal, zero-padded to two characters.\<close>

definition fmt02X :: "int \<Rightarrow> string" where
  "fmt02X n =
     (if n < 0 then CHR ''-'' # to_hex (nat (- n))
      else let h = to_hex (nat n) in if length h < 2 then CHR ''0'' # h else h)"

text \<open>\<^verbatim>\<open>int(x)\<close> on a number: truncation towards zero.\<close>

definition py_trunc :: "real \<Rightarrow> int" where
  "py_trunc x = (if 0 \<le> x then \<lfloor>x\<rfloor> else \<lceil>x\<rceil>)"

definition lighten_channel :: "int \<Rightarrow> real \<Rightarrow> int" where
  "lighten_channel c factor = py_trunc (of_int c + (255 - of_int c) * factor)"

text \<open>The body of the \<^verbatim>\<open>try\<close> after the prefix has been stripped.\<close>

definition lighten_body :: "string \<Rightarrow> real \<Rightarrow> pyerr + string" where
  "lighten_body hex_color factor =
     (case int16_slice (take 2 hex_color) of
        Inl e \<Rightarrow> Inl e
      | Inr r \<Rightarrow>
     (case int16_slice (take 2 (drop 2 hex_color)) of
        Inl e \<Rightarrow> Inl e
      | Inr g \<Rightarrow>
     (case int16_slice (take 2 (drop 4 hex_color)) of
        Inl e \<Rightarrow> Inl e
      | Inr b \<Rightarrow>
          Inr (CHR ''#'' # fmt02X (lighten_channel r factor)
                 @ fmt02X (lighten_channel g factor)
                 @ fmt02X (lighten_channel b factor)))))"

text \<open>
  \<^verbatim>\<open>hex_color\<close> is reassigned inside the \<^verbatim>\<open>try\<close> before anything can raise, so the
  \<^verbatim>\<open>except\<close> branch returns the stripped (and possibly expanded) string.
\<close>

definition lighten_color :: "string \<Rightarrow> real \<Rightarrow> string" where
  "lighten_color hex_color0 factor =
     (let stripped = dropWhile (\<lambda>c. c = CHR ''#'') hex_color0;
          hex_color = (if length stripped = 3 then concat (map (\<lambda>c. [c, c]) stripped)
                       else stripped)
      in case lighten_body hex_color factor of
           Inl e \<Rightarrow> hex_color
         | Inr lightened \<Rightarrow> lightened)"

section \<open>Operations on values\<close>

text \<open>\<^verbatim>\<open>obj[key]\<close> with a string key.\<close>

fun py_getitem :: "pyval \<Rightarrow> string \<Rightarrow> pyerr + pyval" where
  "py_getitem (PDict d) k = (case map_of d k of Some v \<Rightarrow> Inr v | None \<Rightarrow> Inl KeyError)"
| "py_getitem _ k = Inl TypeError"

text \<open>\<^verbatim>\<open>obj.get(key, default)\<close>: only a dictionary has the method.\<close>

fun py_get :: "pyval \<Rightarrow> string \<Rightarrow> pyval \<Rightarrow> pyerr + pyval" where
  "py_get (PDict d) k dflt = Inr (case map_of d k of Some v \<Rightarrow> v | None \<Rightarrow> dflt)"
| "py_get _ k dflt = Inl AttributeError"

text \<open>\<^verbatim>\<open>obj[key] = v\<close> with a string key: an existing key keeps its place.\<close>

fun py_setitem :: "pyval \<Rightarrow> string \<Rightarrow> pyval \<Rightarrow> pyerr + pyval" where
  "py_setitem (PDict d) k v = Inr (PDict (AList.update k v d))"
| "py_setitem _ k v = Inl TypeError"

text \<open>\<^verbatim>\<open>key in obj\<close> with a string key.\<close>

fun py_in :: "string \<Rightarrow> pyval \<Rightarrow> pyerr + bool" where
  "py_in k (PDict d) = Inr (k \<in> set (map fst d))"
| "py_in k (PList xs) = Inr (list_ex (\<lambda>x. py_eq x (PStr k)) xs)"
| "py_in k (PStr s) = Inr (py_in_str k s)"
| "py_in k _ = Inl TypeError"

text \<open>\<^verbatim>\<open>for x in obj\<close>: the items visited.\<close>

fun py_iter :: "pyval \<Rightarrow> pyerr + pyval list" where
  "py_iter (PList xs) = Inr xs"
| "py_iter (PDict d) = Inr (map (\<lambda>(k, v). PStr k) d)"
| "py_iter (PStr s) = Inr (map (\<lambda>c. PStr [c]) s)"
| "py_iter _ = Inl TypeError"

text \<open>\<^verbatim>\<open>obj.split()\<close> and \<^verbatim>\<open>obj.strip()\<close>: only a string has the methods.\<close>

fun py_split_val :: "pyval \<Rightarrow> pyerr + string list" where
  "py_split_val (PStr s) = Inr (py_split s)"
| "py_split_val _ = Inl AttributeError"

fun py_strip_val :: "pyval \<Rightarrow> pyerr + string" where
  "py_strip_val (PStr s) = Inr (py_strip s)"
| "py_strip_val _ = Inl AttributeError"

text \<open>The number a value stands for in arithmetic and comparisons, if any.\<close>

fun num_of :: "pyval \<Rightarrow> real option" where
  "num_of (PNum x) = Some x"
| "num_of (PBool b) = Some (of_bool b)"
| "num_of _ = None"

text \<open>\<^verbatim>\<open>v + r\<close> and \<^verbatim>\<open>v - r\<close> with a float \<open>r\<close>.\<close>

definition py_add :: "pyval \<Rightarrow> real \<Rightarrow> pyerr + pyval" where
  "py_add v r = (case num_of v of Some x \<Rightarrow> Inr (PNum (x + r)) | None \<Rightarrow> Inl TypeError)"

definition py_sub :: "pyval \<Rightarrow> real \<Rightarrow> pyerr + pyval" where
  "py_sub v r = (case num_of v of Some x \<Rightarrow> Inr (PNum (x - r)) | None \<Rightarrow> Inl TypeError)"

text \<open>
  \<^verbatim>\<open>min(v, hi)\<close> returns \<open>v\<close> unless \<^verbatim>\<open>hi < v\<close>; \<^verbatim>\<open>max(lo, v)\<close> returns \<open>lo\<close> unless
  \<^verbatim>\<open>v > lo\<close>. Comparing a float with a value that is not a number raises.
\<close>

definition py_min :: "pyval \<Rightarrow> real \<Rightarrow> pyerr + pyval" where
  "py_min v hi =
     (case num_of v of Some x \<Rightarrow> Inr (if hi < x then PNum hi else v) | None \<Rightarrow> Inl TypeError)"

definition py_max :: "real \<Rightarrow> pyval \<Rightarrow> pyerr + pyval" where
  "py_max lo v =
     (case num_of v of Some x \<Rightarrow> Inr (if lo < x then v else PNum lo) | None \<Rightarrow> Inl TypeError)"

section \<open>Snapshot store: \<^verbatim>\<open>save_graph_state\<close>, \<^verbatim>\<open>load_graph_state\<close>\<close>

text \<open>
  The text column of the table holds either the JSON text of a value, represented by
  that value (\<^verbatim>\<open>json.loads(json.dumps(v)) == v\<close> for the values of \<^typ>\<open>pyval\<close>), or
  text that is not JSON.
\<close>

datatype db_text = JsonOf pyval | NotJson

definition json_dumps :: "pyval \<Rightarrow> db_text" where
  "json_dumps v = JsonOf v"

fun json_loads :: "db_text \<Rightarrow> pyerr + pyval" where
  "json_loads (JsonOf v) = Inr v"
| "json_loads NotJson = Inl JSONDecodeError"

text \<open>
  What the helpers touch outside the process: the rows \<open>(id, state)\<close> of table
  \<^verbatim>\<open>graph_state\<close>, the largest id handed out so far (\<^verbatim>\<open>AUTOINCREMENT\<close>), and whether
  the database can be reached. \<open>save_calls\<close> records the argument of every call of
  \<^verbatim>\<open>save_graph_state\<close>, in order.
\<close>

record world =
  rows :: "(nat \<times> db_text) list"
  last_id :: nat
  db_ok :: bool
  save_calls :: "pyval list"

text \<open>
  \<^verbatim>\<open>DELETE\<close>, \<^verbatim>\<open>INSERT\<close> and \<^verbatim>\<open>commit\<close> form one transaction; an \<^verbatim>\<open>sqlite3.Error\<close>
  leaves the table as it was and the function returns \<^verbatim>\<open>False\<close>.
\<close>

definition save_graph_state :: "world \<Rightarrow> pyval \<Rightarrow> bool \<times> world" where
  "save_graph_state w state =
     (let w1 = w\<lparr>save_calls := save_calls w @ [state]\<rparr>;
          state_json = json_dumps state
      in if db_ok w
         then (True, w1\<lparr>rows := [(Suc (last_id w), state_json)], last_id := Suc (last_id w)\<rparr>)
         else (False, w1))"

text \<open>\<^verbatim>\<open>SELECT state FROM graph_state ORDER BY id DESC LIMIT 1\<close>.\<close>

fun latest_row :: "(nat \<times> db_text) list \<Rightarrow> (nat \<times> db_text) option" where
  "latest_row [] = None"
| "latest_row (r # rs) =
     (case latest_row rs of
        None \<Rightarrow> Some r
      | Some r' \<Rightarrow> if fst r < fst r' then Some r' else Some r)"

definition load_graph_state :: "world \<Rightarrow> pyval" where
  "load_graph_state w =
     (if \<not> db_ok w then PNone
      else case latest_row (rows w) of
             None \<Rightarrow> PNone
           | Some row \<Rightarrow>
               (case json_loads (snd row) of Inl e \<Rightarrow> PNone | Inr state \<Rightarrow> state))"

section \<open>Interaction reducer: \<^verbatim>\<open>handle_interactions\<close>\<close>

text \<open>
  The arguments of the callback, together with the property ids listed in
  \<^verbatim>\<open>callback_context.triggered\<close>.
\<close>

record inputs =
  triggered :: "string list"
  zoom_in :: pyval
  zoom_out :: pyval
  reset_zoom :: pyval
  load_clicks :: pyval
  save_clicks :: pyval
  save_note_clicks :: pyval
  search_value :: pyval
  tapped_node_data :: pyval
  current_elements :: pyval
  current_zoom :: pyval
  current_pan :: pyval
  note_value :: pyval
  tapped_node_state :: pyval

text \<open>
  The info panel shows a message or the \<^verbatim>\<open>html.Div\<close> built from a tapped node's label
  and description; a style is \<^verbatim>\<open>{'display': 'block'}\<close> or \<^verbatim>\<open>{'display': 'none'}\<close>.
\<close>

datatype info = Message string | NodeDiv pyval pyval

datatype display = Block | Hidden

record outputs =
  new_elements :: pyval
  new_zoom :: pyval
  new_pan :: pyval
  node_info :: info
  rendered_notes :: pyval
  rendered_notes_style :: display
  node_notes_value :: pyval
  notes_section_style :: display
  save_alert :: bool
  load_alert :: bool
  note_save_alert :: bool

text \<open>\<^verbatim>\<open>ctx.triggered[0]['prop_id'].split('.')[0]\<close>.\<close>

definition triggered_id :: "inputs \<Rightarrow> string" where
  "triggered_id inp = takeWhile (\<lambda>c. c \<noteq> CHR ''.'') (hd (triggered inp))"

text \<open>
  The default outputs. \<^verbatim>\<open>copy.deepcopy(current_elements)\<close> is the same value; the
  branches below never change \<^verbatim>\<open>current_elements\<close> itself.
\<close>

definition defaults :: "inputs \<Rightarrow> outputs" where
  "defaults inp =
     \<lparr>new_elements = current_elements inp,
      new_zoom = current_zoom inp,
      new_pan = current_pan inp,
      node_info = Message ''Click on a node to see details.'',
      rendered_notes = PStr [],
      rendered_notes_style = Hidden,
      node_notes_value = PStr [],
      notes_section_style = Hidden,
      save_alert = False,
      load_alert = False,
      note_save_alert = False\<rparr>"

text \<open>
  The elements written back after a loop over \<^verbatim>\<open>new_elements\<close>: only the items of a
  list can be changed in place (the items of a string or of a dictionary are strings).
\<close>

fun rebuild :: "pyval \<Rightarrow> pyval list \<Rightarrow> pyval" where
  "rebuild (PList xs) items = PList items"
| "rebuild v items = v"

text \<open>
  A loop whose body changes one item at a time and may raise: the items changed so far
  stay changed.
\<close>

fun loop_partial :: "(pyval \<Rightarrow> pyerr + pyval) \<Rightarrow> pyval list \<Rightarrow> pyval list \<times> pyerr option" where
  "loop_partial f [] = ([], None)"
| "loop_partial f (x # xs) =
     (case f x of
        Inl e \<Rightarrow> (x # xs, Some e)
      | Inr y \<Rightarrow> (case loop_partial f xs of (ys, r) \<Rightarrow> (y # ys, r)))"

subsection \<open>Zoom controls\<close>

definition zoom_factor :: real where
  "zoom_factor = 0.2"

definition zoom_branch :: "inputs \<Rightarrow> pyerr + outputs" where
  "zoom_branch inp =
     (case (if triggered_id inp = ''zoom-in'' \<and> truthy (zoom_in inp)
              then py_add (current_zoom inp) zoom_factor
            else if triggered_id inp = ''zoom-out'' \<and> truthy (zoom_out inp)
              then py_sub (current_zoom inp) zoom_factor
            else if triggered_id inp = ''reset-zoom'' \<and> truthy (reset_zoom inp)
              then Inr (PNum 1.0)
            else Inr (current_zoom inp)) of
        Inl e \<Rightarrow> Inl e
      | Inr z \<Rightarrow>
          (case py_min z 2.0 of
             Inl e \<Rightarrow> Inl e
           | Inr m \<Rightarrow>
               (case py_max 0.5 m of
                  Inl e \<Rightarrow> Inl e
                | Inr z' \<Rightarrow> Inr ((defaults inp)\<lparr>new_zoom := z'\<rparr>))))"

subsection \<open>Load state\<close>

text \<open>\<^verbatim>\<open>'source' not in elem['data'] and 'target' not in elem['data']\<close>.\<close>

definition is_node_elem :: "pyval \<Rightarrow> pyerr + bool" where
  "is_node_elem elem =
     (case py_getitem elem ''data'' of
        Inl e \<Rightarrow> Inl e
      | Inr d \<Rightarrow>
          (case py_in ''source'' d of
             Inl e \<Rightarrow> Inl e
           | Inr s \<Rightarrow>
               if s then Inr False
               else (case py_in ''target'' d of Inl e \<Rightarrow> Inl e | Inr t \<Rightarrow> Inr (\<not> t))))"

text \<open>
  The loop that logs node positions: it changes nothing, but the message is formatted
  from \<^verbatim>\<open>elem['data']['id']\<close>, which may raise.
\<close>

fun log_positions :: "pyval list \<Rightarrow> pyerr option" where
  "log_positions [] = None"
| "log_positions (elem # es) =
     (case is_node_elem elem of
        Inl e \<Rightarrow> Some e
      | Inr False \<Rightarrow> log_positions es
      | Inr True \<Rightarrow>
          (case py_get elem ''position'' (PDict [(''x'', PNum 0), (''y'', PNum 0)]) of
             Inl e \<Rightarrow> Some e
           | Inr position \<Rightarrow>
               (case py_getitem elem ''data'' of
                  Inl e \<Rightarrow> Some e
                | Inr d \<Rightarrow>
                    (case py_getitem d ''id'' of
                       Inl e \<Rightarrow> Some e
                     | Inr i \<Rightarrow> log_positions es))))"

definition load_branch :: "world \<Rightarrow> inputs \<Rightarrow> pyerr + outputs" where
  "load_branch w inp =
     (let state = load_graph_state w in
      if truthy state then
        (case py_get state ''elements'' (current_elements inp) of
           Inl e \<Rightarrow> Inl e
         | Inr elems \<Rightarrow>
        (case py_get state ''zoom'' (PNum 1.0) of
           Inl e \<Rightarrow> Inl e
         | Inr z \<Rightarrow>
        (case py_get state ''pan'' (PDict [(''x'', PNum 0), (''y'', PNum 0)]) of
           Inl e \<Rightarrow> Inl e
         | Inr p \<Rightarrow>
        (case py_iter elems of
           Inl e \<Rightarrow> Inl e
         | Inr items \<Rightarrow>
        (case log_positions items of
           Some e \<Rightarrow> Inl e
         | None \<Rightarrow>
             Inr ((defaults inp)
                    \<lparr>new_elements := elems, new_zoom := z, new_pan := p,
                     load_alert := True\<rparr>))))))
      else Inr (defaults inp))"

subsection \<open>Save state\<close>

definition state_to_save :: "outputs \<Rightarrow> pyval" where
  "state_to_save out =
     PDict [(''elements'', new_elements out), (''zoom'', new_zoom out), (''pan'', new_pan out)]"

definition save_branch :: "world \<Rightarrow> inputs \<Rightarrow> (pyerr + outputs) \<times> world" where
  "save_branch w inp =
     (case save_graph_state w (state_to_save (defaults inp)) of
        (success, w') \<Rightarrow> (Inr ((defaults inp)\<lparr>save_alert := success\<rparr>), w'))"

subsection \<open>Save note\<close>

text \<open>
  The loop that looks for the element whose \<^verbatim>\<open>data\<close> has the selected id: it writes the
  note into the first such element and stops.
\<close>

fun update_note :: "pyval \<Rightarrow> pyval \<Rightarrow> pyval list \<Rightarrow> pyerr + pyval list" where
  "update_note node_id note [] = Inr []"
| "update_note node_id note (elem # es) =
     (case py_getitem elem ''data'' of
        Inl e \<Rightarrow> Inl e
      | Inr d \<Rightarrow>
          (case py_get d ''id'' PNone of
             Inl e \<Rightarrow> Inl e
           | Inr i \<Rightarrow>
               if py_eq i node_id then
                 (case py_setitem d ''notes'' note of
                    Inl e \<Rightarrow> Inl e
                  | Inr d' \<Rightarrow>
                      (case py_setitem elem ''data'' d' of
                         Inl e \<Rightarrow> Inl e
                       | Inr elem' \<Rightarrow> Inr (elem' # es)))
               else (case update_note node_id note es of
                       Inl e \<Rightarrow> Inl e
                     | Inr es' \<Rightarrow> Inr (elem # es'))))"

definition save_note_branch :: "world \<Rightarrow> inputs \<Rightarrow> (pyerr + outputs) \<times> world" where
  "save_note_branch w inp =
     (if truthy (tapped_node_state inp) then
        (case py_get (tapped_node_state inp) ''id'' PNone of
           Inl e \<Rightarrow> (Inl e, w)
         | Inr node_id \<Rightarrow>
        (case py_iter (current_elements inp) of
           Inl e \<Rightarrow> (Inl e, w)
         | Inr items \<Rightarrow>
        (case update_note node_id (note_value inp) items of
           Inl e \<Rightarrow> (Inl e, w)
         | Inr items' \<Rightarrow>
        (case py_strip_val (note_value inp) of
           Inl e \<Rightarrow> (Inl e, w)
         | Inr stripped \<Rightarrow>
             (let out = (defaults inp)
                    \<lparr>new_elements := rebuild (current_elements inp) items',
                     rendered_notes := note_value inp,
                     rendered_notes_style := (if stripped \<noteq> [] then Block else Hidden),
                     node_notes_value := note_value inp,
                     notes_section_style := Block,
                     note_save_alert := True\<rparr>
              in (Inr out, snd (save_graph_state w (state_to_save out))))))))
      else (Inr (defaults inp), w))"

subsection \<open>Search\<close>

text \<open>The first loop of the \<^verbatim>\<open>try\<close>: drop \<^verbatim>\<open>'highlighted'\<close> from an element's classes.\<close>

definition clear_elem :: "pyval \<Rightarrow> pyerr + pyval" where
  "clear_elem elem =
     (case py_in ''classes'' elem of
        Inl e \<Rightarrow> Inl e
      | Inr has \<Rightarrow>
          if \<not> has then Inr elem
          else (case py_getitem elem ''classes'' of
                  Inl e \<Rightarrow> Inl e
                | Inr c \<Rightarrow>
                    (case py_split_val c of
                       Inl e \<Rightarrow> Inl e
                     | Inr classes \<Rightarrow>
                         py_setitem elem ''classes''
                           (PStr (join_sp (remove1 ''highlighted'' classes))))))"

text \<open>
  The comprehension that collects \<^verbatim>\<open>elem['data']['label']\<close> of the elements that have
  neither \<^verbatim>\<open>source\<close> nor \<^verbatim>\<open>target\<close>.
\<close>

fun collect_labels :: "pyval list \<Rightarrow> pyerr + pyval list" where
  "collect_labels [] = Inr []"
| "collect_labels (elem # es) =
     (case is_node_elem elem of
        Inl e \<Rightarrow> Inl e
      | Inr False \<Rightarrow> collect_labels es
      | Inr True \<Rightarrow>
          (case py_getitem elem ''data'' of
             Inl e \<Rightarrow> Inl e
           | Inr d \<Rightarrow>
               (case py_getitem d ''label'' of
                  Inl e \<Rightarrow> Inl e
                | Inr l \<Rightarrow>
                    (case collect_labels es of
                       Inl e \<Rightarrow> Inl e
                     | Inr ls \<Rightarrow> Inr (l # ls)))))"

text \<open>
  The body of the second loop: an element with both \<^verbatim>\<open>source\<close> and \<^verbatim>\<open>target\<close> is
  skipped, any other gets or loses \<^verbatim>\<open>'highlighted'\<close> according to its label.
\<close>

definition mark_elem :: "pyval list \<Rightarrow> pyval \<Rightarrow> pyerr + pyval" where
  "mark_elem matching_labels elem =
     (case py_getitem elem ''data'' of
        Inl e \<Rightarrow> Inl e
      | Inr d \<Rightarrow>
     (case py_in ''source'' d of
        Inl e \<Rightarrow> Inl e
      | Inr s \<Rightarrow>
     (case (if s then py_in ''target'' d else Inr False) of
        Inl e \<Rightarrow> Inl e
      | Inr skip \<Rightarrow>
          if skip then Inr elem
          else
     (case py_get d ''label'' (PStr []) of
        Inl e \<Rightarrow> Inl e
      | Inr label \<Rightarrow>
     (case py_get elem ''classes'' (PStr []) of
        Inl e \<Rightarrow> Inl e
      | Inr c \<Rightarrow>
     (case py_split_val c of
        Inl e \<Rightarrow> Inl e
      | Inr classes \<Rightarrow>
          py_setitem elem ''classes''
            (PStr (join_sp
               (if list_ex (\<lambda>x. py_eq x label) matching_labels
                then (if ''highlighted'' \<in> set classes then classes
                      else classes @ [''highlighted''])
                else remove1 ''highlighted'' classes)))))))))"

definition search_failed :: "inputs \<Rightarrow> pyval \<Rightarrow> outputs" where
  "search_failed inp elems =
     (defaults inp)
       \<lparr>new_elements := elems, node_info := Message ''An error occurred during the search.''\<rparr>"

definition search_branch :: "inputs \<Rightarrow> outputs" where
  "search_branch inp =
     (case py_iter (current_elements inp) of
        Inl e \<Rightarrow> search_failed inp (current_elements inp)
      | Inr items \<Rightarrow>
     (case loop_partial clear_elem items of
        (items1, Some e) \<Rightarrow> search_failed inp (rebuild (current_elements inp) items1)
      | (items1, None) \<Rightarrow>
          (let elems1 = rebuild (current_elements inp) items1 in
           if \<not> truthy (search_value inp) then
             (defaults inp)
               \<lparr>new_elements := elems1,
                node_info := Message ''Search cleared. All nodes are visible.''\<rparr>
           else
     (case collect_labels items of
        Inl e \<Rightarrow> search_failed inp elems1
      | Inr all_labels \<Rightarrow>
          (let matching_labels = perform_fuzzy_search (search_value inp) all_labels in
           if matching_labels = [] then
             (defaults inp)
               \<lparr>new_elements := elems1, node_info := Message ''No matching nodes found.''\<rparr>
           else
     (case py_iter elems1 of
        Inl e \<Rightarrow> search_failed inp elems1
      | Inr items1' \<Rightarrow>
     (case loop_partial (mark_elem matching_labels) items1' of
        (items2, Some e) \<Rightarrow> search_failed inp (rebuild elems1 items2)
      | (items2, None) \<Rightarrow>
          (defaults inp)
            \<lparr>new_elements := rebuild elems1 items2,
             node_info := Message ''Matching nodes highlighted.''\<rparr>)))))))"

subsection \<open>Node tap\<close>

definition tap_failed :: "inputs \<Rightarrow> outputs" where
  "tap_failed inp =
     (defaults inp)
       \<lparr>node_info := Message ''An error occurred while processing the node tap.''\<rparr>"

definition tap_branch :: "inputs \<Rightarrow> outputs" where
  "tap_branch inp =
     (if truthy (tapped_node_data inp) then
        (case py_get (tapped_node_data inp) ''label'' (PStr ''No Label'') of
           Inl e \<Rightarrow> tap_failed inp
         | Inr label \<Rightarrow>
        (case py_get (tapped_node_data inp) ''description''
                (PStr ''No description available.'') of
           Inl e \<Rightarrow> tap_failed inp
         | Inr description \<Rightarrow>
        (case py_get (tapped_node_data inp) ''notes'' (PStr []) of
           Inl e \<Rightarrow> tap_failed inp
         | Inr notes \<Rightarrow>
        (case py_strip_val notes of
           Inl e \<Rightarrow> tap_failed inp
         | Inr stripped \<Rightarrow>
             (defaults inp)
               \<lparr>node_info := NodeDiv label description,
                rendered_notes := notes,
                rendered_notes_style := (if stripped \<noteq> [] then Block else Hidden),
                node_notes_value := notes,
                notes_section_style := Block\<rparr>))))
      else defaults inp)"

subsection \<open>The callback\<close>

definition handle_interactions :: "world \<Rightarrow> inputs \<Rightarrow> (pyerr + outputs) \<times> world" where
  "handle_interactions w inp =
     (if triggered inp = [] then (Inl PreventUpdate, w)
      else if triggered_id inp \<in> set [''zoom-in'', ''zoom-out'', ''reset-zoom'']
        then (zoom_branch inp, w)
      else if triggered_id inp = ''load-state'' \<and> truthy (load_clicks inp)
        then (load_branch w inp, w)
      else if triggered_id inp = ''save-state'' \<and> truthy (save_clicks inp)
        then save_branch w inp
      else if triggered_id inp = ''save-note'' \<and> truthy (save_note_clicks inp)
        then save_note_branch w inp
      else if triggered_id inp = ''node-search''
        then (Inr (search_branch inp), w)
      else if triggered_id inp = ''cytoscape-graph''
        then (Inr (tap_branch inp), w)
      else (Inl PreventUpdate, w))"

subsection \<open>A session: successive dispatches\<close>

text \<open>
  Between two calls the browser holds the document: the elements, zoom and pan that the
  callback returned are the \<^verbatim>\<open>State\<close> values of the next call. An event is the rest of
  the arguments.
\<close>

record doc =
  elements :: pyval
  zoom :: pyval
  pan :: pyval

definition with_doc :: "doc \<Rightarrow> inputs \<Rightarrow> inputs" where
  "with_doc d ev =
     ev\<lparr>current_elements := elements d, current_zoom := zoom d, current_pan := pan d\<rparr>"

definition doc_of :: "outputs \<Rightarrow> doc" where
  "doc_of out = \<lparr>elements = new_elements out, zoom = new_zoom out, pan = new_pan out\<rparr>"

fun dispatch_all :: "world \<Rightarrow> doc \<Rightarrow> inputs list \<Rightarrow> (pyerr + doc) \<times> world" where
  "dispatch_all w d [] = (Inr d, w)"
| "dispatch_all w d (ev # evs) =
     (case handle_interactions w (with_doc d ev) of
        (Inl e, w') \<Rightarrow> (Inl e, w')
      | (Inr out, w') \<Rightarrow> dispatch_all w' (doc_of out) evs)"

section \<open>Graph document builder: \<^verbatim>\<open>load_graph_elements\<close>\<close>

definition PRIMARY_NODE_COLORS :: "string list" where
  "PRIMARY_NODE_COLORS =
     [''#1f77b4'', ''#ff7f0e'', ''#2ca02c'', ''#d62728'', ''#9467bd'',
      ''#8c564b'', ''#e377c2'', ''#7f7f7f'', ''#bcbd22'', ''#17becf'']"

text \<open>
  The taxonomy is a dictionary of strings for the central node, a dictionary from
  primary id to description, and a dictionary from parent id to a dictionary from child
  id to description. While the lists \<^verbatim>\<open>nodes\<close> and \<^verbatim>\<open>edges\<close> are built, a node and an
  edge are kept as records; \<open>node_elem\<close> and \<open>edge_elem\<close> give the dictionaries that the
  function appends.
\<close>

record node =
  node_id :: string
  node_label :: string
  node_description :: string
  node_notes :: string
  node_color :: string
  node_classes :: string

record edge =
  edge_source :: string
  edge_target :: string
  edge_id :: string

definition node_elem :: "node \<Rightarrow> pyval" where
  "node_elem n =
     PDict [(''data'', PDict [(''id'', PStr (node_id n)),
                              (''label'', PStr (node_label n)),
                              (''description'', PStr (node_description n)),
                              (''notes'', PStr (node_notes n)),
                              (''color'', PStr (node_color n))]),
            (''classes'', PStr (node_classes n))]"

definition edge_elem :: "edge \<Rightarrow> pyval" where
  "edge_elem e =
     PDict [(''data'', PDict [(''source'', PStr (edge_source e)),
                              (''target'', PStr (edge_target e)),
                              (''id'', PStr (edge_id e))])]"

definition mk_edge :: "string \<Rightarrow> string \<Rightarrow> edge" where
  "mk_edge src tgt = \<lparr>edge_source = src, edge_target = tgt, edge_id = src @ ''_to_'' @ tgt\<rparr>"

text \<open>
  The first loop, over \<^verbatim>\<open>enumerate(primary_nodes.items())\<close>; \<open>i\<close> is the index of the
  next item.
\<close>

fun primary_loop ::
  "string \<Rightarrow> nat \<Rightarrow> (string \<times> string) list \<Rightarrow> node list \<times> edge list" where
  "primary_loop central_id i [] = ([], [])"
| "primary_loop central_id i ((primary_id, primary_desc) # rest) =
     (case primary_loop central_id (Suc i) rest of
        (ns, es) \<Rightarrow>
          (\<lparr>node_id = primary_id,
            node_label = replace_underscores primary_id,
            node_description = primary_desc,
            node_notes = [],
            node_color = PRIMARY_NODE_COLORS ! (i mod length PRIMARY_NODE_COLORS),
            node_classes = ''primary-node''\<rparr> # ns,
           mk_edge central_id primary_id # es))"

text \<open>
  \<^verbatim>\<open>next((node['data']['color'] for node in nodes if node['data']['id'] == parent_id),
  '#FFFFFF')\<close>.
\<close>

definition parent_color :: "node list \<Rightarrow> string \<Rightarrow> string" where
  "parent_color nodes parent_id =
     (case find (\<lambda>n. node_id n = parent_id) nodes of
        Some n \<Rightarrow> node_color n
      | None \<Rightarrow> ''#FFFFFF'')"

text \<open>The inner loop, over \<^verbatim>\<open>children.items()\<close>, for one parent.\<close>

fun child_loop ::
  "string \<Rightarrow> string \<Rightarrow> (string \<times> string) list \<Rightarrow> node list \<times> edge list" where
  "child_loop parent_id color [] = ([], [])"
| "child_loop parent_id color ((child_id, child_desc) # rest) =
     (case child_loop parent_id color rest of
        (ns, es) \<Rightarrow>
          (\<lparr>node_id = child_id,
            node_label = replace_underscores child_id,
            node_description = child_desc,
            node_notes = [],
            node_color = lighten_color color 0.6,
            node_classes = ''subnode''\<rparr> # ns,
           mk_edge parent_id child_id # es))"

text \<open>
  The outer loop, over \<^verbatim>\<open>subnodes.items()\<close>: the parent's color is looked up among all
  nodes appended so far.
\<close>

fun subnode_loop ::
  "node list \<Rightarrow> edge list \<Rightarrow> (string \<times> (string \<times> string) list) list
     \<Rightarrow> node list \<times> edge list" where
  "subnode_loop nodes edges [] = (nodes, edges)"
| "subnode_loop nodes edges ((parent_id, children) # rest) =
     (case child_loop parent_id (parent_color nodes parent_id) children of
        (ns, es) \<Rightarrow> subnode_loop (nodes @ ns) (edges @ es) rest)"

definition build_graph ::
  "(string \<times> string) list \<Rightarrow> (string \<times> string) list
     \<Rightarrow> (string \<times> (string \<times> string) list) list \<Rightarrow> pyerr + node list \<times> edge list" where
  "build_graph central_node primary_nodes subnodes =
     (case map_of central_node ''id'' of
        None \<Rightarrow> Inl KeyError
      | Some central_id \<Rightarrow>
     (case map_of central_node ''label'' of
        None \<Rightarrow> Inl KeyError
      | Some central_label \<Rightarrow>
     (case map_of central_node ''description'' of
        None \<Rightarrow> Inl KeyError
      | Some central_description \<Rightarrow>
          (let central =
                 \<lparr>node_id = central_id,
                  node_label = replace_underscores central_label,
                  node_description = central_description,
                  node_notes = (case map_of central_node ''notes'' of
                                  Some n \<Rightarrow> n | None \<Rightarrow> []),
                  node_color = ''#87CEEB'',
                  node_classes = ''central-node''\<rparr>
           in case primary_loop central_id 0 primary_nodes of
                (ns, es) \<Rightarrow> Inr (subnode_loop (central # ns) es subnodes)))))"

definition load_graph_elements ::
  "(string \<times> string) list \<Rightarrow> (string \<times> string) list
     \<Rightarrow> (string \<times> (string \<times> string) list) list \<Rightarrow> pyerr + pyval list" where
  "load_graph_elements central_node primary_nodes subnodes =
     (case build_graph central_node primary_nodes subnodes of
        Inl e \<Rightarrow> Inl e
      | Inr (nodes, edges) \<Rightarrow> Inr (map node_elem nodes @ map edge_elem edges))"

section \<open>Events and example values\<close>

text \<open>
  A zoom dispatch is a call triggered by one of the three zoom buttons; a note dispatch
  is a call triggered by the save-note button after a click (\<open>n_clicks\<close> is then a
  positive number); a search dispatch is a call triggered by the search box.
\<close>

definition is_zoom_event :: "inputs \<Rightarrow> bool" where
  "is_zoom_event ev \<longleftrightarrow>
     triggered ev \<noteq> [] \<and> triggered_id ev \<in> set [''zoom-in'', ''zoom-out'', ''reset-zoom'']"

definition is_save_note_event :: "inputs \<Rightarrow> bool" where
  "is_save_note_event ev \<longleftrightarrow>
     triggered ev \<noteq> [] \<and> triggered_id ev = ''save-note'' \<and> truthy (save_note_clicks ev)"

definition is_search_event :: "inputs \<Rightarrow> bool" where
  "is_search_event ev \<longleftrightarrow> triggered ev \<noteq> [] \<and> triggered_id ev = ''node-search''"

text \<open>An empty store that can be reached, and a call with nothing set.\<close>

definition fresh_world :: world where
  "fresh_world = \<lparr>rows = [], last_id = 0, db_ok = True, save_calls = []\<rparr>"

definition no_event :: inputs where
  "no_event =
     \<lparr>triggered = [],
      zoom_in = PNone, zoom_out = PNone, reset_zoom = PNone,
      load_clicks = PNone, save_clicks = PNone, save_note_clicks = PNone,
      search_value = PStr [],
      tapped_node_data = PNone,
      current_elements = PList [],
      current_zoom = PNum 1,
      current_pan = PDict [(''x'', PNum 0), (''y'', PNum 0)],
      note_value = PStr [],
      tapped_node_state = PNone\<rparr>"

definition click :: "string \<Rightarrow> inputs" where
  "click button =
     no_event\<lparr>triggered := [button @ ''.n_clicks''],
              zoom_in := PNum 1, zoom_out := PNum 1, reset_zoom := PNum 1,
              load_clicks := PNum 1, save_clicks := PNum 1, save_note_clicks := PNum 1\<rparr>"

definition empty_doc :: doc where
  "empty_doc = \<lparr>elements = PList [], zoom = PNum 1, pan = PDict [(''x'', PNum 0), (''y'', PNum 0)]\<rparr>"

text \<open>A change of the search box to \<open>q\<close> while the graph shows the elements \<open>es\<close>.\<close>

definition search_for :: "string \<Rightarrow> pyval list \<Rightarrow> inputs" where
  "search_for q es =
     no_event\<lparr>triggered := [''node-search.value''], search_value := PStr q,
              current_elements := PList es\<rparr>"

section \<open>Notions of the specification\<close>

text \<open>
  A label matches a query when the lower-cased query is a substring of the lower-cased
  label.
\<close>

definition label_matches :: "string \<Rightarrow> string \<Rightarrow> bool" where
  "label_matches q l \<longleftrightarrow> py_in_str (py_lower q) (py_lower l)"

text \<open>The six digits of a valid hex color \<^verbatim>\<open>#RRGGBB\<close>.\<close>

definition hex_digits6 :: "string \<Rightarrow> bool" where
  "hex_digits6 ds \<longleftrightarrow> length ds = 6 \<and> list_all (\<lambda>c. hexval c \<noteq> None) ds"

text \<open>The zoom range of the view: \<open>0.5 \<le> z \<le> 2.0\<close>.\<close>

definition in_zoom_range :: "real \<Rightarrow> bool" where
  "in_zoom_range z \<longleftrightarrow> 1 / 2 \<le> z \<and> z \<le> 2"

definition clamp_zoom :: "real \<Rightarrow> real" where
  "clamp_zoom z = max (1 / 2) (min z 2)"

text \<open>
  An element record is a dictionary whose \<^verbatim>\<open>data\<close> is a dictionary. An element has id
  \<open>i\<close> when \<^verbatim>\<open>elem['data'].get('id') == i\<close>.
\<close>

definition is_element :: "pyval \<Rightarrow> bool" where
  "is_element elem \<longleftrightarrow>
     (case py_getitem elem ''data'' of Inr (PDict d) \<Rightarrow> True | _ \<Rightarrow> False)"

definition elem_has_id :: "pyval \<Rightarrow> pyval \<Rightarrow> bool" where
  "elem_has_id i elem \<longleftrightarrow>
     (case py_getitem elem ''data'' of
        Inr d \<Rightarrow> (case py_get d ''id'' PNone of Inr j \<Rightarrow> py_eq j i | Inl e \<Rightarrow> False)
      | Inl e \<Rightarrow> False)"

text \<open>
  A well-formed save-note dispatch with an active selection: the tapped-node state is a
  non-empty record, the note text is a string, and the current elements are a list of
  element records.
\<close>

definition save_note_with_selection :: "inputs \<Rightarrow> bool" where
  "save_note_with_selection inp \<longleftrightarrow>
     is_save_note_event inp
     \<and> (case tapped_node_state inp of PDict sel \<Rightarrow> sel \<noteq> [] | _ \<Rightarrow> False)
     \<and> (case note_value inp of PStr s \<Rightarrow> True | _ \<Rightarrow> False)
     \<and> (case current_elements inp of PList items \<Rightarrow> list_all is_element items | _ \<Rightarrow> False)"

text \<open>The id of the selection, \<^verbatim>\<open>tapped_node_state.get('id')\<close>, when the state is a record.\<close>

definition selected_id :: "inputs \<Rightarrow> pyval" where
  "selected_id inp = (case py_get (tapped_node_state inp) ''id'' PNone of Inr i \<Rightarrow> i | Inl e \<Rightarrow> PNone)"

definition compute_node :: pyval where
  "compute_node =
     PDict [(''data'', PDict [(''id'', PStr ''Compute''), (''label'', PStr ''Compute''),
                              (''description'', PStr ''Compute services in Azure''),
                              (''notes'', PStr []), (''color'', PStr ''#1f77b4'')]),
            (''classes'', PStr ''primary-node'')]"

text \<open>
  The invariant of a graph document, read off its elements: the nodes are the elements
  without \<^verbatim>\<open>source\<close> and \<^verbatim>\<open>target\<close>, the edges the others; every edge's source and
  target are ids of nodes, and no two nodes have the same id.
\<close>

definition elem_field :: "string \<Rightarrow> pyval \<Rightarrow> pyval option" where
  "elem_field k elem =
     (case py_getitem elem ''data'' of
        Inr d \<Rightarrow> (case py_getitem d k of Inr v \<Rightarrow> Some v | Inl e \<Rightarrow> None)
      | Inl e \<Rightarrow> None)"

definition doc_nodes :: "pyval list \<Rightarrow> pyval list" where
  "doc_nodes es = filter (\<lambda>e. is_node_elem e = Inr True) es"

definition doc_edges :: "pyval list \<Rightarrow> pyval list" where
  "doc_edges es = filter (\<lambda>e. is_node_elem e = Inr False) es"

definition doc_node_ids :: "pyval list \<Rightarrow> pyval option list" where
  "doc_node_ids es = map (elem_field ''id'') (doc_nodes es)"

definition targets_resolved :: "pyval list \<Rightarrow> bool" where
  "targets_resolved es \<longleftrightarrow>
     list_all (\<lambda>e. elem_field ''target'' e \<in> set (doc_node_ids es)) (doc_edges es)"

definition sources_resolved :: "pyval list \<Rightarrow> bool" where
  "sources_resolved es \<longleftrightarrow>
     list_all (\<lambda>e. elem_field ''source'' e \<in> set (doc_node_ids es)) (doc_edges es)"

definition node_ids_unique :: "pyval list \<Rightarrow> bool" where
  "node_ids_unique es \<longleftrightarrow> distinct (doc_node_ids es)"

text \<open>
  The ids a taxonomy names, in the order in which the builder makes their nodes: the
  central id, the primary ids, the child ids of each parent. A parent is known when it
  has no children or its id is one of these.
\<close>

definition taxonomy_ids ::
  "string \<Rightarrow> (string \<times> string) list \<Rightarrow> (string \<times> (string \<times> string) list) list
     \<Rightarrow> string list" where
  "taxonomy_ids central_id primary_nodes subnodes =
     central_id # map fst primary_nodes @ concat (map (\<lambda>(parent_id, children). map fst children) subnodes)"

definition parents_known ::
  "string \<Rightarrow> (string \<times> string) list \<Rightarrow> (string \<times> (string \<times> string) list) list
     \<Rightarrow> bool" where
  "parents_known central_id primary_nodes subnodes \<longleftrightarrow>
     list_all (\<lambda>(parent_id, children).
        children = [] \<or> parent_id \<in> set (taxonomy_ids central_id primary_nodes subnodes)) subnodes"

definition azure :: "(string \<times> string) list" where
  "azure = [(''id'', ''Azure_Architectures''), (''label'', ''Azure Architectures''),
            (''description'', ''Central node for Azure Architectures''),
            (''class'', ''central-node'')]"

text \<open>The two ends of an edge.\<close>

definition edge_ends :: "edge \<Rightarrow> string \<times> string" where
  "edge_ends e = (edge_source e, edge_target e)"

text \<open>
  Notions for searching. The classes of an element are the tokens of its \<^verbatim>\<open>classes\<close>
  string (none when the key is missing); an element is highlighted when
  \<^verbatim>\<open>'highlighted'\<close> is among them.
\<close>

definition elem_classes :: "pyval \<Rightarrow> string list" where
  "elem_classes elem =
     (case py_get elem ''classes'' (PStr []) of Inr (PStr c) \<Rightarrow> py_split c | _ \<Rightarrow> [])"

definition is_highlighted :: "pyval \<Rightarrow> bool" where
  "is_highlighted elem \<longleftrightarrow> ''highlighted'' \<in> set (elem_classes elem)"

text \<open>
  A node element has neither \<^verbatim>\<open>source\<close> nor \<^verbatim>\<open>target\<close> in its data and a string label;
  an edge element has both \<^verbatim>\<open>source\<close> and \<^verbatim>\<open>target\<close>. The classes of a well-formed
  element are a string (or missing) that names \<^verbatim>\<open>'highlighted'\<close> at most once.
\<close>

definition search_node :: "pyval \<Rightarrow> bool" where
  "search_node elem \<longleftrightarrow>
     is_node_elem elem = Inr True
     \<and> (case elem_field ''label'' elem of Some (PStr l) \<Rightarrow> True | _ \<Rightarrow> False)"

definition search_edge :: "pyval \<Rightarrow> bool" where
  "search_edge elem \<longleftrightarrow>
     (case py_getitem elem ''data'' of
        Inr (PDict d) \<Rightarrow> ''source'' \<in> set (map fst d) \<and> ''target'' \<in> set (map fst d)
      | _ \<Rightarrow> False)"

definition classes_ok :: "pyval \<Rightarrow> bool" where
  "classes_ok elem \<longleftrightarrow>
     (case py_get elem ''classes'' (PStr []) of
        Inr (PStr c) \<Rightarrow> count_list (py_split c) ''highlighted'' \<le> 1
      | _ \<Rightarrow> False)"

definition search_elem :: "pyval \<Rightarrow> bool" where
  "search_elem elem \<longleftrightarrow> (search_node elem \<or> search_edge elem) \<and> classes_ok elem"

definition label_of :: "pyval \<Rightarrow> string" where
  "label_of elem = (case elem_field ''label'' elem of Some (PStr l) \<Rightarrow> l | _ \<Rightarrow> [])"

text \<open>Two elements with the same fields, in the same order, apart from \<^verbatim>\<open>classes\<close>.\<close>

fun same_but_classes :: "pyval \<Rightarrow> pyval \<Rightarrow> bool" where
  "same_but_classes (PDict a) (PDict b) \<longleftrightarrow>
     filter (\<lambda>kv. fst kv \<noteq> ''classes'') a = filter (\<lambda>kv. fst kv \<noteq> ''classes'') b"
| "same_but_classes _ _ \<longleftrightarrow> False"

text \<open>
  What a search for \<open>q\<close> does to one element: only the classes change, and of these only
  \<^verbatim>\<open>'highlighted'\<close>; a node ends up highlighted exactly when the query is not empty and
  its label matches; an edge ends up not highlighted.
\<close>

definition search_post :: "string \<Rightarrow> pyval \<Rightarrow> pyval \<Rightarrow> bool" where
  "search_post q elem elem' \<longleftrightarrow>
     same_but_classes elem elem'
     \<and> filter (\<lambda>t. t \<noteq> ''highlighted'') (elem_classes elem')
         = filter (\<lambda>t. t \<noteq> ''highlighted'') (elem_classes elem)
     \<and> (search_node elem \<longrightarrow>
          (is_highlighted elem' \<longleftrightarrow> q \<noteq> [] \<and> label_matches q (label_of elem)))
     \<and> (search_edge elem \<longrightarrow> \<not> is_highlighted elem')"

text \<open>The text of a query: a string, or empty when the value is \<^verbatim>\<open>None\<close>.\<close>

fun query_text :: "pyval \<Rightarrow> string option" where
  "query_text (PStr q) = Some q"
| "query_text PNone = Some []"
| "query_text _ = None"

definition marked_twice :: pyval where
  "marked_twice =
     PDict [(''data'', PDict [(''id'', PStr ''Compute''), (''label'', PStr ''Compute'')]),
            (''classes'', PStr ''highlighted highlighted'')]"

definition functions_node :: pyval where
  "functions_node =
     PDict [(''data'', PDict [(''id'', PStr ''Functions''), (''label'', PStr ''Functions''),
                              (''description'', PStr ''Azure Functions''),
                              (''notes'', PStr []), (''color'', PStr ''#A5C8E1'')]),
            (''classes'', PStr ''subnode highlighted'')]"

definition compute_edge :: pyval where
  "compute_edge =
     PDict [(''data'', PDict [(''source'', PStr ''Compute''), (''target'', PStr ''Functions''),
                              (''id'', PStr ''Compute_to_Functions'')])]"

text \<open>A token: a non-empty string without white space.\<close>

definition token :: "string \<Rightarrow> bool" where
  "token w \<longleftrightarrow> w \<noteq> [] \<and> (\<forall>c\<in>set w. \<not> is_space c)"

text \<open>
  The effect of the two loops of a search on one element: the first removes
  \<^verbatim>\<open>'highlighted'\<close>; the second, given the matching labels, appends it to an element
  that is not an edge and whose label is among them.
\<close>

definition cleared :: "pyval \<Rightarrow> pyval \<Rightarrow> bool" where
  "cleared elem elem1 \<longleftrightarrow>
     same_but_classes elem elem1
     \<and> py_getitem elem1 ''data'' = py_getitem elem ''data''
     \<and> classes_ok elem1
     \<and> elem_classes elem1 = filter (\<lambda>t. t \<noteq> ''highlighted'') (elem_classes elem)"

definition marked :: "pyval list \<Rightarrow> pyval \<Rightarrow> pyval \<Rightarrow> bool" where
  "marked matching_labels elem1 elem2 \<longleftrightarrow>
     same_but_classes elem1 elem2
     \<and> elem_classes elem2 =
         (if \<not> search_edge elem1
             \<and> list_ex (\<lambda>x. py_eq x (PStr (label_of elem1))) matching_labels
          then elem_classes elem1 @ [''highlighted'']
          else elem_classes elem1)"

definition marked_once :: pyval where
  "marked_once =
     PDict [(''data'', PDict [(''id'', PStr ''Compute''), (''label'', PStr ''Compute'')]),
            (''classes'', PStr ''highlighted'')]"

section \<open>Properties of the text matcher\<close>

lemma label_matches_fun: "label_matches q = (\<lambda>l. py_in_str (py_lower q) (py_lower l))"
  by (rule ext) (simp add: label_matches_def)

lemma lower_char_idem: "lower_char (lower_char c) = lower_char c"
  by (simp add: lower_char_def upper_letters_def lower_letters_def)

lemma py_lower_idem: "py_lower (py_lower s) = py_lower s"
  by (simp add: py_lower_def lower_char_idem)

lemma py_lower_Nil_iff: "py_lower s = [] \<longleftrightarrow> s = []"
  by (simp add: py_lower_def)

lemma matching_strings:
  "matching q (map PStr L) = Inr (map PStr (filter (\<lambda>l. py_in_str q (py_lower l)) L))"
  by (induction L) simp_all

lemma perform_fuzzy_search_strings:
  "perform_fuzzy_search (PStr q) (map PStr L) =
     (if q = [] then [] else map PStr (filter (label_matches q) L))"
  by (simp add: perform_fuzzy_search_def matching_strings label_matches_fun py_lower_Nil_iff)

text \<open>
  Claim C6, as the code has it. On a list of string labels: the empty query gives the
  empty list; a query and its lower-case form give the same result; for a query that is
  not empty the result is exactly the labels that match, in their order; and for every
  query each result is a label that matches and the result is a subsequence of the
  labels. (For the empty query every label matches, yet the result is empty.)
\<close>

theorem perform_fuzzy_search_spec:
  "perform_fuzzy_search (PStr []) (map PStr L) = []
   \<and> perform_fuzzy_search (PStr q) (map PStr L)
       = perform_fuzzy_search (PStr (py_lower q)) (map PStr L)
   \<and> (q \<noteq> [] \<longrightarrow>
        perform_fuzzy_search (PStr q) (map PStr L) = map PStr (filter (label_matches q) L))
   \<and> set (perform_fuzzy_search (PStr q) (map PStr L))
        \<subseteq> PStr ` {l \<in> set L. label_matches q l}
   \<and> subseq (perform_fuzzy_search (PStr q) (map PStr L)) (map PStr L)"
  by (auto simp: perform_fuzzy_search_strings label_matches_fun py_lower_idem py_lower_Nil_iff
      intro!: subseq_map)

theorem perform_fuzzy_search_spec_witness:
  "''VM'' \<noteq> [] \<and>
   perform_fuzzy_search (PStr ''VM'') (map PStr [''my vms'', ''App''])
     = map PStr (filter (label_matches ''VM'') [''my vms'', ''App''])"
proof -
  have "''VM'' \<noteq> []" by simp
  with perform_fuzzy_search_spec [of "[''my vms'', ''App'']" "''VM''"] show ?thesis by blast
qed

text \<open>
  Claim C6 as stated fails at the empty query: the label \<^verbatim>\<open>'a'\<close> contains the empty
  string, but the result for the empty query is the empty list.
\<close>

theorem perform_fuzzy_search_empty_query_counterexample:
  "perform_fuzzy_search (PStr []) (map PStr [''a''])
     \<noteq> map PStr (filter (label_matches []) [''a''])"
  by (simp add: perform_fuzzy_search_def label_matches_def py_lower_def)

section \<open>Properties of the color deriver\<close>

text \<open>
  Claim C2 at two malformed inputs. For \<^verbatim>\<open>'#GGGGGG'\<close> (not hexadecimal) the function
  returns \<^verbatim>\<open>'GGGGGG'\<close>: the \<^verbatim>\<open>except\<close> branch returns the variable after the prefix was
  stripped from it, not the string that was passed in. For \<^verbatim>\<open>'#12345'\<close> (five digits)
  nothing raises: the last slice is the single digit \<^verbatim>\<open>'5'\<close> and the result is a
  different color.
\<close>

theorem lighten_color_malformed:
  "lighten_color ''#GGGGGG'' 0.5 = ''GGGGGG'' \<and> lighten_color ''#12345'' 0 = ''#123405''"
  by (simp add: lighten_color_def lighten_body_def int16_slice_def is_int_space_def
      hexval_def fmt02X_def lighten_channel_def py_trunc_def hex_digit_def)

lemma hexval_cases:
  assumes "hexval c = Some v"
  shows "0 \<le> v \<and> v < 16 \<and> \<not> is_int_space c \<and> c \<noteq> CHR ''#'' \<and> c \<noteq> CHR ''+'' \<and> c \<noteq> CHR ''-''
         \<and> hex_digit (nat v) = upper_char c"
  using assms
  by (auto simp: hexval_def is_int_space_def hex_digit_def upper_char_def split: if_splits)

lemma to_hex_small: "n < 16 \<Longrightarrow> to_hex n = [hex_digit n]"
  by simp

lemma to_hex_pair:
  assumes "v < 16" and "w < 16"
  shows "to_hex (16 * v + w) = (if v = 0 then [hex_digit w] else [hex_digit v, hex_digit w])"
  using assms by (subst to_hex.simps) (auto simp del: to_hex.simps simp add: to_hex_small)

lemma fmt02X_pair:
  assumes "0 \<le> v" "v < 16" "0 \<le> w" "w < 16"
  shows "fmt02X (16 * v + w) = [hex_digit (nat v), hex_digit (nat w)]"
proof -
  have "nat (16 * v + w) = 16 * nat v + nat w" using assms by simp
  moreover have "nat v < 16" "nat w < 16" using assms by simp_all
  ultimately show ?thesis
    using assms by (simp add: fmt02X_def to_hex_pair Let_def hex_digit_def del: to_hex.simps)
qed

lemma fmt02X_255: "fmt02X 255 = ''FF''"
  by (simp add: fmt02X_def hex_digit_def)

lemma int16_slice_pair:
  assumes "hexval a = Some v" and "hexval b = Some w"
  shows "int16_slice [a, b] = Inr (16 * v + w)"
  using assms hexval_cases [OF assms(1)] hexval_cases [OF assms(2)]
  by (simp add: int16_slice_def)

lemma lighten_channel_0: "0 \<le> c \<Longrightarrow> lighten_channel c 0 = c"
  by (simp add: lighten_channel_def py_trunc_def)

lemma lighten_channel_1: "lighten_channel c 1 = 255"
  by (simp add: lighten_channel_def py_trunc_def)

lemma hex_digits6_E:
  assumes "hex_digits6 ds"
  obtains a b c d e f va vb vc vd ve vf where "ds = [a, b, c, d, e, f]"
    and "hexval a = Some va" "hexval b = Some vb" "hexval c = Some vc"
    and "hexval d = Some vd" "hexval e = Some ve" "hexval f = Some vf"
proof -
  from assms have len: "length ds = 6" and all: "list_all (\<lambda>c. hexval c \<noteq> None) ds"
    by (simp_all add: hex_digits6_def)
  from len obtain a b c d e f where ds: "ds = [a, b, c, d, e, f]"
    by (auto simp: length_Suc_conv eval_nat_numeral)
  with all that show thesis by auto
qed

lemma lighten_body_hex6:
  assumes "hex_digits6 ds"
  shows "lighten_body ds 0 = Inr (CHR ''#'' # map upper_char ds)"
    and "lighten_body ds 1 = Inr ''#FFFFFF''"
proof -
  from assms obtain a b c d e f va vb vc vd ve vf where ds: "ds = [a, b, c, d, e, f]"
    and h: "hexval a = Some va" "hexval b = Some vb" "hexval c = Some vc"
       "hexval d = Some vd" "hexval e = Some ve" "hexval f = Some vf"
    by (rule hex_digits6_E)
  note r = h [THEN hexval_cases]
  have p: "int16_slice [a, b] = Inr (16 * va + vb)" "int16_slice [c, d] = Inr (16 * vc + vd)"
    "int16_slice [e, f] = Inr (16 * ve + vf)"
    using h by (simp_all add: int16_slice_pair)
  have q: "fmt02X (16 * va + vb) = [upper_char a, upper_char b]"
    "fmt02X (16 * vc + vd) = [upper_char c, upper_char d]"
    "fmt02X (16 * ve + vf) = [upper_char e, upper_char f]"
    using r by (simp_all add: fmt02X_pair)
  have n: "0 \<le> 16 * va + vb" "0 \<le> 16 * vc + vd" "0 \<le> 16 * ve + vf"
    using r by simp_all
  show "lighten_body ds 0 = Inr (CHR ''#'' # map upper_char ds)"
    by (simp add: lighten_body_def ds p q n lighten_channel_0)
  show "lighten_body ds 1 = Inr ''#FFFFFF''"
    by (simp add: lighten_body_def ds p lighten_channel_1 fmt02X_255)
qed

lemma strip_prefix_hex6:
  assumes "hex_digits6 ds"
  shows "dropWhile (\<lambda>c. c = CHR ''#'') (CHR ''#'' # ds) = ds" and "dropWhile (\<lambda>c. c = CHR ''#'') ds = ds"
    and "length ds \<noteq> 3"
proof -
  from assms obtain a rest va where "ds = a # rest" "hexval a = Some va"
    by (rule hex_digits6_E) auto
  with hexval_cases [of a va] show "dropWhile (\<lambda>c. c = CHR ''#'') (CHR ''#'' # ds) = ds"
    and "dropWhile (\<lambda>c. c = CHR ''#'') ds = ds" by simp_all
  from assms show "length ds \<noteq> 3" by (simp add: hex_digits6_def)
qed

text \<open>
  Claim C3, as the code has it. For a color \<^verbatim>\<open>#\<close> followed by six hexadecimal digits,
  factor 0 gives \<^verbatim>\<open>#\<close> followed by the same digits in upper case (the same color, and the
  same string when the digits are already upper case or decimal), and factor 1 gives
  \<^verbatim>\<open>#FFFFFF\<close>.
\<close>

theorem lighten_color_identity_and_white:
  assumes "hex_digits6 ds"
  shows "lighten_color (CHR ''#'' # ds) 0 = CHR ''#'' # map upper_char ds
     \<and> lighten_color (CHR ''#'' # ds) 1 = ''#FFFFFF''
     \<and> (map upper_char ds = ds \<longrightarrow> lighten_color (CHR ''#'' # ds) 0 = CHR ''#'' # ds)"
  using strip_prefix_hex6 [OF assms] lighten_body_hex6 [OF assms]
  by (simp add: lighten_color_def)

theorem lighten_color_identity_and_white_witness:
  "hex_digits6 ''1f77b4'' \<and> lighten_color ''#1f77b4'' 0 = ''#1F77B4''
     \<and> lighten_color ''#1f77b4'' 1 = ''#FFFFFF''"
proof -
  have h: "hex_digits6 ''1f77b4''" by (simp add: hex_digits6_def hexval_def)
  from lighten_color_identity_and_white [OF h] h show ?thesis
    by (simp add: upper_char_def)
qed

text \<open>
  Claim C3 as stated fails on lower-case digits: the palette color \<^verbatim>\<open>#1f77b4\<close> with
  factor 0 comes back as \<^verbatim>\<open>#1F77B4\<close>.
\<close>

theorem lighten_color_identity_counterexample:
  "hex_digits6 ''1f77b4'' \<and> lighten_color ''#1f77b4'' 0 \<noteq> ''#1f77b4''"
  by (simp add: hex_digits6_def lighten_color_def lighten_body_def int16_slice_def is_int_space_def
      hexval_def fmt02X_def lighten_channel_def py_trunc_def hex_digit_def)

section \<open>Properties of the snapshot store\<close>

text \<open>
  Claim C8. When \<^verbatim>\<open>save_graph_state\<close> has saved a snapshot (it returned \<^verbatim>\<open>True\<close>), a
  following \<^verbatim>\<open>load_graph_state\<close> returns that snapshot: its elements, zoom and pan are
  the saved ones. This holds whatever rows the table held before.
\<close>

theorem save_then_load_roundtrip:
  assumes "fst (save_graph_state w (PDict [(''elements'', e), (''zoom'', z), (''pan'', p)]))"
  shows "load_graph_state
           (snd (save_graph_state w (PDict [(''elements'', e), (''zoom'', z), (''pan'', p)])))
         = PDict [(''elements'', e), (''zoom'', z), (''pan'', p)]
     \<and> py_getitem (load_graph_state
           (snd (save_graph_state w (PDict [(''elements'', e), (''zoom'', z), (''pan'', p)]))))
         ''elements'' = Inr e
     \<and> py_getitem (load_graph_state
           (snd (save_graph_state w (PDict [(''elements'', e), (''zoom'', z), (''pan'', p)]))))
         ''zoom'' = Inr z
     \<and> py_getitem (load_graph_state
           (snd (save_graph_state w (PDict [(''elements'', e), (''zoom'', z), (''pan'', p)]))))
         ''pan'' = Inr p"
  using assms
  by (simp add: save_graph_state_def load_graph_state_def json_dumps_def Let_def
      split: if_splits)

theorem save_then_load_roundtrip_witness:
  "fst (save_graph_state (fresh_world\<lparr>rows := [(7, NotJson)], last_id := 7\<rparr>)
          (PDict [(''elements'', PList []), (''zoom'', PNum 1.4), (''pan'', PNone)]))
   \<and> load_graph_state
       (snd (save_graph_state (fresh_world\<lparr>rows := [(7, NotJson)], last_id := 7\<rparr>)
          (PDict [(''elements'', PList []), (''zoom'', PNum 1.4), (''pan'', PNone)])))
     = PDict [(''elements'', PList []), (''zoom'', PNum 1.4), (''pan'', PNone)]"
proof -
  have "fst (save_graph_state (fresh_world\<lparr>rows := [(7, NotJson)], last_id := 7\<rparr>)
          (PDict [(''elements'', PList []), (''zoom'', PNum 1.4), (''pan'', PNone)]))"
    by (simp add: save_graph_state_def fresh_world_def)
  with save_then_load_roundtrip [of "fresh_world\<lparr>rows := [(7, NotJson)], last_id := 7\<rparr>"
      "PList []" "PNum 1.4" PNone]
  show ?thesis by blast
qed

section \<open>Properties of the reducer: zoom\<close>

lemma zoom_step:
  assumes "is_zoom_event ev" and "zoom d = PNum z"
  shows "handle_interactions w (with_doc d ev) =
           (Inr ((defaults (with_doc d ev))
               \<lparr>new_zoom := PNum (clamp_zoom
                  (if triggered_id ev = ''zoom-in'' \<and> truthy (zoom_in ev) then z + 0.2
                   else if triggered_id ev = ''zoom-out'' \<and> truthy (zoom_out ev) then z - 0.2
                   else if triggered_id ev = ''reset-zoom'' \<and> truthy (reset_zoom ev) then 1
                   else z))\<rparr>), w)"
  using assms
  by (auto simp: is_zoom_event_def handle_interactions_def zoom_branch_def with_doc_def
      triggered_id_def py_add_def py_sub_def py_min_def py_max_def zoom_factor_def
      clamp_zoom_def max_def min_def)

lemma clamp_zoom_range: "in_zoom_range (clamp_zoom z)"
  by (simp add: in_zoom_range_def clamp_zoom_def max_def min_def)

lemma doc_of_zoom: "doc_of ((defaults (with_doc d ev))\<lparr>new_zoom := v\<rparr>) = d\<lparr>zoom := v\<rparr>"
  by (simp add: doc_of_def defaults_def with_doc_def)

lemma zoom_sequence:
  assumes "\<forall>ev\<in>set evs. is_zoom_event ev" and "zoom d = PNum z" and "in_zoom_range z"
  shows "\<exists>z'. dispatch_all w d evs = (Inr (d\<lparr>zoom := PNum z'\<rparr>), w) \<and> in_zoom_range z'"
  using assms
proof (induction evs arbitrary: d z)
  case Nil
  then have "d\<lparr>zoom := PNum z\<rparr> = d" by simp
  with Nil show ?case by (intro exI [of _ z]) simp
next
  case (Cons ev evs)
  define z1 where "z1 = clamp_zoom
                  (if triggered_id ev = ''zoom-in'' \<and> truthy (zoom_in ev) then z + 0.2
                   else if triggered_id ev = ''zoom-out'' \<and> truthy (zoom_out ev) then z - 0.2
                   else if triggered_id ev = ''reset-zoom'' \<and> truthy (reset_zoom ev) then 1
                   else z)"
  from Cons.prems have ev: "is_zoom_event ev" and evs: "\<forall>ev\<in>set evs. is_zoom_event ev"
    by simp_all
  have step: "handle_interactions w (with_doc d ev)
                = (Inr ((defaults (with_doc d ev))\<lparr>new_zoom := PNum z1\<rparr>), w)"
    unfolding z1_def by (rule zoom_step [OF ev Cons.prems(2)])
  have r: "in_zoom_range z1" unfolding z1_def by (rule clamp_zoom_range)
  have "zoom (d\<lparr>zoom := PNum z1\<rparr>) = PNum z1" by simp
  from Cons.IH [OF evs this r] obtain z' where
    "dispatch_all w (d\<lparr>zoom := PNum z1\<rparr>) evs = (Inr (d\<lparr>zoom := PNum z'\<rparr>), w)"
    and "in_zoom_range z'" by auto
  then show ?case by (intro exI [of _ z']) (simp add: step doc_of_zoom)
qed

text \<open>
  Claim C4. From a document whose zoom is a number in \<open>[0.5, 2.0]\<close>, any finite sequence
  of zoom dispatches (zoom in, zoom out, reset) returns normally and ends in a document
  that differs from the first at most in its zoom, which is again a number in
  \<open>[0.5, 2.0]\<close>; the store is not touched. Each single dispatch leaves elements and pan as
  they are; a zoom-in click gives the old zoom plus 0.2, a zoom-out click the old zoom
  minus 0.2, each clamped to \<open>[0.5, 2.0]\<close>.
\<close>

theorem zoom_stays_in_range:
  assumes "\<forall>ev\<in>set evs. is_zoom_event ev" and "zoom d = PNum z" and "in_zoom_range z"
  shows "(\<exists>z'. dispatch_all w d evs = (Inr (d\<lparr>zoom := PNum z'\<rparr>), w) \<and> 1 / 2 \<le> z' \<and> z' \<le> 2)
    \<and> (\<forall>ev\<in>set evs. \<forall>d1 z1 w1. zoom d1 = PNum z1 \<longrightarrow>
          (\<exists>out. handle_interactions w1 (with_doc d1 ev) = (Inr out, w1)
             \<and> new_elements out = elements d1 \<and> new_pan out = pan d1
             \<and> (triggered_id ev = ''zoom-in'' \<and> truthy (zoom_in ev) \<longrightarrow>
                  new_zoom out = PNum (max (1 / 2) (min (z1 + 0.2) 2)))
             \<and> (triggered_id ev = ''zoom-out'' \<and> truthy (zoom_out ev) \<longrightarrow>
                  new_zoom out = PNum (max (1 / 2) (min (z1 - 0.2) 2)))))"
proof (intro conjI ballI allI impI)
  from zoom_sequence [OF assms, of w]
  show "\<exists>z'. dispatch_all w d evs = (Inr (d\<lparr>zoom := PNum z'\<rparr>), w) \<and> 1 / 2 \<le> z' \<and> z' \<le> 2"
    by (simp add: in_zoom_range_def)
next
  fix ev and d1 :: doc and z1 and w1 :: world
  assume "ev \<in> set evs" and z1: "zoom d1 = PNum z1"
  with assms(1) have ev: "is_zoom_event ev" by simp
  show "\<exists>out. handle_interactions w1 (with_doc d1 ev) = (Inr out, w1)
             \<and> new_elements out = elements d1 \<and> new_pan out = pan d1
             \<and> (triggered_id ev = ''zoom-in'' \<and> truthy (zoom_in ev) \<longrightarrow>
                  new_zoom out = PNum (max (1 / 2) (min (z1 + 0.2) 2)))
             \<and> (triggered_id ev = ''zoom-out'' \<and> truthy (zoom_out ev) \<longrightarrow>
                  new_zoom out = PNum (max (1 / 2) (min (z1 - 0.2) 2)))"
    by (rule exI, intro conjI, rule zoom_step [OF ev z1])
      (simp_all add: defaults_def with_doc_def clamp_zoom_def)
qed

lemma click_zoom_in: "triggered_id (click ''zoom-in'') = ''zoom-in'' \<and> truthy (zoom_in (click ''zoom-in''))"
  by (simp add: click_def no_event_def triggered_id_def)

theorem zoom_stays_in_range_witness:
  "is_zoom_event (click ''zoom-in'') \<and> is_zoom_event (click ''zoom-out'')
   \<and> zoom (empty_doc\<lparr>zoom := PNum 1.9\<rparr>) = PNum 1.9 \<and> in_zoom_range 1.9
   \<and> (\<exists>z'. dispatch_all fresh_world (empty_doc\<lparr>zoom := PNum 1.9\<rparr>)
               [click ''zoom-in'', click ''zoom-out'']
             = (Inr (empty_doc\<lparr>zoom := PNum z'\<rparr>), fresh_world)
           \<and> 1 / 2 \<le> z' \<and> z' \<le> 2)
   \<and> (\<exists>out. handle_interactions fresh_world
                (with_doc (empty_doc\<lparr>zoom := PNum 1.9\<rparr>) (click ''zoom-in''))
              = (Inr out, fresh_world)
            \<and> new_zoom out = PNum 2)"
proof -
  have i: "is_zoom_event (click ''zoom-in'')" and o: "is_zoom_event (click ''zoom-out'')"
    by (simp_all add: is_zoom_event_def click_def no_event_def triggered_id_def)
  then have a: "\<forall>ev\<in>set [click ''zoom-in'', click ''zoom-out'']. is_zoom_event ev"
    by simp
  have b: "zoom (empty_doc\<lparr>zoom := PNum 1.9\<rparr>) = PNum 1.9" by simp
  have c: "in_zoom_range 1.9" by (simp add: in_zoom_range_def)
  note t = zoom_stays_in_range [OF a b c, of fresh_world]
  from t have seq: "\<exists>z'. dispatch_all fresh_world (empty_doc\<lparr>zoom := PNum 1.9\<rparr>)
               [click ''zoom-in'', click ''zoom-out'']
             = (Inr (empty_doc\<lparr>zoom := PNum z'\<rparr>), fresh_world)
           \<and> 1 / 2 \<le> z' \<and> z' \<le> 2"
    by simp
  from t have "\<forall>ev\<in>set [click ''zoom-in'', click ''zoom-out'']. \<forall>d1 z1 w1.
          zoom d1 = PNum z1 \<longrightarrow>
          (\<exists>out. handle_interactions w1 (with_doc d1 ev) = (Inr out, w1)
             \<and> new_elements out = elements d1 \<and> new_pan out = pan d1
             \<and> (triggered_id ev = ''zoom-in'' \<and> truthy (zoom_in ev) \<longrightarrow>
                  new_zoom out = PNum (max (1 / 2) (min (z1 + 0.2) 2)))
             \<and> (triggered_id ev = ''zoom-out'' \<and> truthy (zoom_out ev) \<longrightarrow>
                  new_zoom out = PNum (max (1 / 2) (min (z1 - 0.2) 2))))"
    by (rule conjunct2)
  then have "\<forall>d1 z1 w1. zoom d1 = PNum z1 \<longrightarrow>
          (\<exists>out. handle_interactions w1 (with_doc d1 (click ''zoom-in'')) = (Inr out, w1)
             \<and> new_elements out = elements d1 \<and> new_pan out = pan d1
             \<and> (triggered_id (click ''zoom-in'') = ''zoom-in''
                  \<and> truthy (zoom_in (click ''zoom-in'')) \<longrightarrow>
                  new_zoom out = PNum (max (1 / 2) (min (z1 + 0.2) 2)))
             \<and> (triggered_id (click ''zoom-in'') = ''zoom-out''
                  \<and> truthy (zoom_out (click ''zoom-in'')) \<longrightarrow>
                  new_zoom out = PNum (max (1 / 2) (min (z1 - 0.2) 2))))"
    by simp
  from this [rule_format, OF b, of fresh_world] click_zoom_in
  have step: "\<exists>out. handle_interactions fresh_world
                (with_doc (empty_doc\<lparr>zoom := PNum 1.9\<rparr>) (click ''zoom-in''))
              = (Inr out, fresh_world)
            \<and> new_zoom out = PNum 2"
    by auto
  from i o b c seq step show ?thesis by blast
qed

section \<open>Properties of the reducer: saving a note\<close>

text \<open>
  Claim C1 at two of the inputs it names. A save-note dispatch with a selected node and
  no note text (\<^verbatim>\<open>None\<close>) raises \<^verbatim>\<open>AttributeError\<close> from \<^verbatim>\<open>note_value.strip()\<close>, and one
  whose tapped-node payload is a string instead of a record raises it from
  \<^verbatim>\<open>tapped_node_state.get('id')\<close>. Neither statement sits in a \<^verbatim>\<open>try\<close>, so the exception
  leaves the callback.
\<close>

theorem save_note_malformed_raises:
  "handle_interactions fresh_world
     ((click ''save-note'')\<lparr>tapped_node_state := PDict [(''id'', PStr ''Compute'')],
                             note_value := PNone\<rparr>)
   = (Inl AttributeError, fresh_world)
   \<and> handle_interactions fresh_world
     ((click ''save-note'')\<lparr>tapped_node_state := PStr ''Compute'',
                             note_value := PStr ''hello''\<rparr>)
   = (Inl AttributeError, fresh_world)"
  by (simp add: handle_interactions_def click_def no_event_def triggered_id_def
      save_note_branch_def)

text \<open>
  Claim C9. A save-note dispatch without a selection (the tapped-node state is \<^verbatim>\<open>None\<close>,
  an empty dictionary, or any other false value) returns normally; the returned
  elements, zoom and pan are the current ones, no alert is raised, and the store is as
  before: \<^verbatim>\<open>save_graph_state\<close> was not called.
\<close>

theorem save_note_without_selection:
  assumes "is_save_note_event inp" and "\<not> truthy (tapped_node_state inp)"
  shows "\<exists>out. handle_interactions w inp = (Inr out, w)
           \<and> new_elements out = current_elements inp
           \<and> new_zoom out = current_zoom inp
           \<and> new_pan out = current_pan inp
           \<and> \<not> note_save_alert out \<and> \<not> save_alert out
           \<and> save_calls (snd (handle_interactions w inp)) = save_calls w
           \<and> rows (snd (handle_interactions w inp)) = rows w"
  using assms
  by (simp add: is_save_note_event_def handle_interactions_def save_note_branch_def
      defaults_def)

theorem save_note_without_selection_witness:
  "is_save_note_event ((click ''save-note'')\<lparr>note_value := PStr ''hello''\<rparr>)
   \<and> \<not> truthy (tapped_node_state ((click ''save-note'')\<lparr>note_value := PStr ''hello''\<rparr>))
   \<and> (\<exists>out. handle_interactions fresh_world ((click ''save-note'')\<lparr>note_value := PStr ''hello''\<rparr>)
               = (Inr out, fresh_world)
        \<and> new_elements out = current_elements ((click ''save-note'')\<lparr>note_value := PStr ''hello''\<rparr>)
        \<and> \<not> note_save_alert out)"
proof -
  have a: "is_save_note_event ((click ''save-note'')\<lparr>note_value := PStr ''hello''\<rparr>)"
    by (simp add: is_save_note_event_def click_def no_event_def triggered_id_def)
  have b: "\<not> truthy (tapped_node_state ((click ''save-note'')\<lparr>note_value := PStr ''hello''\<rparr>))"
    by (simp add: click_def no_event_def)
  from save_note_without_selection [OF a b, of fresh_world] a b show ?thesis by blast
qed

lemma update_note_elements:
  assumes "list_all is_element items"
  shows "\<exists>items'. update_note i note items = Inr items'
            \<and> (\<not> list_ex (elem_has_id i) items \<longrightarrow> items' = items)"
  using assms
proof (induction items)
  case Nil
  show ?case by simp
next
  case (Cons elem items)
  from Cons.prems have "is_element elem" and "list_all is_element items" by simp_all
  from \<open>is_element elem\<close> obtain ed d where elem: "elem = PDict ed" and d: "map_of ed ''data'' = Some (PDict d)"
    by (cases elem) (auto simp: is_element_def split: option.splits pyval.splits)
  from Cons.IH [OF \<open>list_all is_element items\<close>] obtain items' where
    r: "update_note i note items = Inr items'"
    and s: "\<not> list_ex (elem_has_id i) items \<longrightarrow> items' = items" by blast
  have h: "elem_has_id i (PDict ed) = py_eq (case map_of d ''id'' of None \<Rightarrow> PNone | Some v \<Rightarrow> v) i"
    by (simp add: d elem_has_id_def)
  show ?case
    using r s by (simp add: elem d h)
qed

text \<open>
  A well-formed save-note dispatch with an active selection (the selection a non-empty
  record, the note text a string, the elements records) returns normally with the
  note-saved alert set and the note text in the notes panel and the editor, and
  \<^verbatim>\<open>save_graph_state\<close> is called once, with the returned elements and the current zoom
  and pan. This holds when no element has the selected id (the returned elements are
  then the current ones) and whether or not the store can be reached: if it can, the
  snapshot is the one a following load returns; if it cannot, the table is as before.
\<close>

lemma save_note_with_selection_saves:
  assumes "save_note_with_selection inp"
  shows "\<exists>out. fst (handle_interactions w inp) = Inr out
           \<and> note_save_alert out
           \<and> rendered_notes out = note_value inp \<and> node_notes_value out = note_value inp
           \<and> save_calls (snd (handle_interactions w inp))
               = save_calls w @
                   [PDict [(''elements'', new_elements out), (''zoom'', current_zoom inp),
                           (''pan'', current_pan inp)]]
           \<and> (\<not> list_ex (elem_has_id (selected_id inp))
                   (case current_elements inp of PList items \<Rightarrow> items | _ \<Rightarrow> [])
                \<longrightarrow> new_elements out = current_elements inp)
           \<and> (db_ok w \<longrightarrow>
                load_graph_state (snd (handle_interactions w inp))
                  = PDict [(''elements'', new_elements out), (''zoom'', current_zoom inp),
                           (''pan'', current_pan inp)])
           \<and> (\<not> db_ok w \<longrightarrow> rows (snd (handle_interactions w inp)) = rows w)"
proof -
  from assms obtain sel s items where ev: "is_save_note_event inp"
    and sel: "tapped_node_state inp = PDict sel" "sel \<noteq> []"
    and nv: "note_value inp = PStr s"
    and items: "current_elements inp = PList items" "list_all is_element items"
    by (auto simp: save_note_with_selection_def split: pyval.splits)
  from update_note_elements [OF items(2), of "selected_id inp" "PStr s"] obtain items' where
    u: "update_note (selected_id inp) (PStr s) items = Inr items'"
    and n: "\<not> list_ex (elem_has_id (selected_id inp)) items \<longrightarrow> items' = items" by blast
  define out where "out = (defaults inp)
                    \<lparr>new_elements := PList items',
                     rendered_notes := PStr s,
                     rendered_notes_style := (if py_strip s \<noteq> [] then Block else Hidden),
                     node_notes_value := PStr s,
                     notes_section_style := Block,
                     note_save_alert := True\<rparr>"
  have sid: "py_get (PDict sel) ''id'' PNone = Inr (selected_id inp)"
    by (simp add: selected_id_def sel)
  have br: "save_note_branch w inp = (Inr out, snd (save_graph_state w (state_to_save out)))"
    unfolding save_note_branch_def sel(1) nv items(1)
    using sel(2) u by (simp add: selected_id_def sel(1) out_def Let_def)
  have hi: "handle_interactions w inp = (Inr out, snd (save_graph_state w (state_to_save out)))"
    using ev by (simp add: is_save_note_event_def handle_interactions_def br)
  have o1: "note_save_alert out" "rendered_notes out = note_value inp"
    "node_notes_value out = note_value inp"
    by (simp_all add: out_def nv)
  have o2: "\<not> list_ex (elem_has_id (selected_id inp)) items \<longrightarrow> new_elements out = current_elements inp"
    using n by (simp add: out_def items(1))
  have s1: "save_calls (snd (save_graph_state w (state_to_save out))) = save_calls w @ [state_to_save out]"
    by (simp add: save_graph_state_def Let_def)
  have s2: "db_ok w \<longrightarrow> load_graph_state (snd (save_graph_state w (state_to_save out))) = state_to_save out"
    by (simp add: save_graph_state_def load_graph_state_def json_dumps_def Let_def)
  have s3: "\<not> db_ok w \<longrightarrow> rows (snd (save_graph_state w (state_to_save out))) = rows w"
    by (simp add: save_graph_state_def Let_def)
  have st: "state_to_save out
              = PDict [(''elements'', new_elements out), (''zoom'', current_zoom inp),
                       (''pan'', current_pan inp)]"
    by (simp add: state_to_save_def out_def defaults_def)
  show ?thesis
    unfolding hi using o1 o2 s1 s2 s3 by (simp add: items(1) st [symmetric])
qed

lemma save_note_with_selection_saves_example:
  "save_note_with_selection
     ((click ''save-note'')\<lparr>tapped_node_state := PDict [(''id'', PStr ''Storage'')],
        note_value := PStr ''hello'', current_elements := PList [compute_node]\<rparr>)
   \<and> \<not> list_ex (elem_has_id (PStr ''Storage'')) [compute_node]
   \<and> \<not> db_ok (fresh_world\<lparr>db_ok := False\<rparr>)
   \<and> (\<exists>out. fst (handle_interactions (fresh_world\<lparr>db_ok := False\<rparr>)
                 ((click ''save-note'')\<lparr>tapped_node_state := PDict [(''id'', PStr ''Storage'')],
                    note_value := PStr ''hello'', current_elements := PList [compute_node]\<rparr>))
              = Inr out
        \<and> note_save_alert out
        \<and> new_elements out = PList [compute_node]
        \<and> save_calls (snd (handle_interactions (fresh_world\<lparr>db_ok := False\<rparr>)
                 ((click ''save-note'')\<lparr>tapped_node_state := PDict [(''id'', PStr ''Storage'')],
                    note_value := PStr ''hello'', current_elements := PList [compute_node]\<rparr>)))
            = [PDict [(''elements'', PList [compute_node]), (''zoom'', PNum 1),
                      (''pan'', PDict [(''x'', PNum 0), (''y'', PNum 0)])]])"
proof -
  define inp where "inp = (click ''save-note'')\<lparr>tapped_node_state := PDict [(''id'', PStr ''Storage'')],
        note_value := PStr ''hello'', current_elements := PList [compute_node]\<rparr>"
  define w where "w = fresh_world\<lparr>db_ok := False\<rparr>"
  have a: "save_note_with_selection inp"
    by (simp add: inp_def save_note_with_selection_def is_save_note_event_def click_def
        no_event_def triggered_id_def is_element_def compute_node_def)
  have b: "\<not> list_ex (elem_has_id (PStr ''Storage'')) [compute_node]"
    by (simp add: elem_has_id_def compute_node_def)
  have c: "selected_id inp = PStr ''Storage''" by (simp add: inp_def selected_id_def)
  have d: "current_elements inp = PList [compute_node]" by (simp add: inp_def)
  have e: "save_calls w = []" "\<not> db_ok w" by (simp_all add: w_def fresh_world_def)
  from save_note_with_selection_saves [OF a, of w] obtain out where
    o: "fst (handle_interactions w inp) = Inr out" "note_save_alert out"
      "save_calls (snd (handle_interactions w inp))
         = save_calls w @
             [PDict [(''elements'', new_elements out), (''zoom'', current_zoom inp),
                     (''pan'', current_pan inp)]]"
      "\<not> list_ex (elem_has_id (selected_id inp))
            (case current_elements inp of PList items \<Rightarrow> items | _ \<Rightarrow> [])
         \<longrightarrow> new_elements out = current_elements inp"
    by blast
  from o(4) b have f: "new_elements out = PList [compute_node]"
    unfolding c d by simp
  have z: "current_zoom inp = PNum 1"
    "current_pan inp = PDict [(''x'', PNum 0), (''y'', PNum 0)]"
    by (simp_all add: inp_def click_def no_event_def)
  from o(3) have g: "save_calls (snd (handle_interactions w inp))
      = [PDict [(''elements'', PList [compute_node]), (''zoom'', PNum 1),
                (''pan'', PDict [(''x'', PNum 0), (''y'', PNum 0)])]]"
    unfolding e f z by simp
  from a b e(2) o(1) o(2) f g show ?thesis
    unfolding inp_def w_def by blast
qed

text \<open>
  Claim C10 at a failing input. A save-note dispatch with an active selection whose note
  text is \<^verbatim>\<open>None\<close>: the note is written into the copy of the selected element, the alert
  flag is set, and then \<^verbatim>\<open>note_value.strip()\<close> raises \<^verbatim>\<open>AttributeError\<close>. The callback
  returns no outputs, so no note-saved alert reaches the caller, and
  \<^verbatim>\<open>save_graph_state\<close> is never called.
\<close>

theorem save_note_none_text_no_alert_no_save:
  "is_save_note_event
     ((click ''save-note'')\<lparr>tapped_node_state := PDict [(''id'', PStr ''Compute'')],
        note_value := PNone, current_elements := PList [compute_node]\<rparr>)
   \<and> truthy (PDict [(''id'', PStr ''Compute'')])
   \<and> fst (handle_interactions fresh_world
          ((click ''save-note'')\<lparr>tapped_node_state := PDict [(''id'', PStr ''Compute'')],
             note_value := PNone, current_elements := PList [compute_node]\<rparr>))
       = Inl AttributeError
   \<and> save_calls (snd (handle_interactions fresh_world
          ((click ''save-note'')\<lparr>tapped_node_state := PDict [(''id'', PStr ''Compute'')],
             note_value := PNone, current_elements := PList [compute_node]\<rparr>)))
       = []"
  by (simp add: is_save_note_event_def handle_interactions_def click_def no_event_def
      triggered_id_def save_note_branch_def compute_node_def fresh_world_def)

section \<open>Properties of the reducer: search\<close>

subsection \<open>Splitting and joining class strings\<close>

lemma split_acc_tokens:
  assumes "cur = [] \<or> token cur"
  shows "\<forall>w\<in>set (split_acc cur s). token w"
  using assms
proof (induction s arbitrary: cur)
  case Nil
  then show ?case by auto
next
  case (Cons c s)
  show ?case
  proof (cases "is_space c")
    case True
    with Cons.prems Cons.IH [of "[]"] show ?thesis by auto
  next
    case False
    with Cons.prems have "token (cur @ [c])" by (auto simp: token_def)
    with Cons.IH [of "cur @ [c]"] False show ?thesis by simp
  qed
qed

lemma py_split_tokens: "w \<in> set (py_split s) \<Longrightarrow> token w"
  using split_acc_tokens [of "[]" s] by (simp add: py_split_def)

lemma split_acc_word:
  assumes "\<forall>c\<in>set w. \<not> is_space c"
  shows "split_acc cur (w @ rest) = split_acc (cur @ w) rest"
  using assms by (induction w arbitrary: cur) simp_all

lemma py_split_join:
  assumes "\<forall>w\<in>set ws. token w"
  shows "py_split (join_sp ws) = ws"
  using assms
proof (induction ws rule: join_sp.induct)
  case 1
  show ?case by (simp add: py_split_def)
next
  case (2 w)
  then have "token w" by simp
  then show ?case
    using split_acc_word [of w "[]" "[]"] by (simp add: py_split_def token_def)
next
  case (3 w v ws)
  then have w: "token w" and rest: "\<forall>x\<in>set (v # ws). token x" by simp_all
  have sp: "is_space CHR '' ''" by (simp add: is_space_def)
  from w have "split_acc [] (w @ CHR '' '' # join_sp (v # ws))
                 = w # split_acc [] (join_sp (v # ws))"
    using split_acc_word [of w "[]" "CHR '' '' # join_sp (v # ws)"] sp
    by (simp add: token_def)
  with 3(1) [OF rest] show ?case by (simp add: py_split_def)
qed

lemma token_highlighted: "token ''highlighted''"
  by (simp add: token_def is_space_def)

lemma remove1_once:
  "count_list xs x \<le> 1 \<Longrightarrow> remove1 x xs = filter (\<lambda>t. t \<noteq> x) xs"
proof (induction xs)
  case Nil
  show ?case by simp
next
  case (Cons a xs)
  show ?case
  proof (cases "a = x")
    case True
    with Cons.prems have "count_list xs x = 0" by simp
    then have "x \<notin> set xs" by (simp add: count_list_0_iff)
    then have "filter (\<lambda>t. t \<noteq> x) xs = xs" by (auto simp: filter_id_conv)
    with True show ?thesis by simp
  next
    case False
    with Cons show ?thesis by simp
  qed
qed

subsection \<open>The two loops, element by element\<close>

lemma map_of_update_other: "k \<noteq> k' \<Longrightarrow> map_of (AList.update k v al) k' = map_of al k'"
  by (simp add: update_conv')

lemma filter_update_classes:
  "filter (\<lambda>kv. fst kv \<noteq> k) (AList.update k v al) = filter (\<lambda>kv. fst kv \<noteq> k) al"
  by (induction al) auto

text \<open>An element as the search sees it.\<close>

lemma search_elem_shape:
  assumes "search_elem e"
  obtains ed d cs where "e = PDict ed" and "map_of ed ''data'' = Some (PDict d)"
    and "py_get e ''classes'' (PStr []) = Inr (PStr cs)"
    and "count_list (py_split cs) ''highlighted'' \<le> 1"
    and "map_of ed ''classes'' = None \<or> map_of ed ''classes'' = Some (PStr cs)"
proof -
  from assms have c: "classes_ok e" and k: "search_node e \<or> search_edge e"
    by (simp_all add: search_elem_def)
  from c obtain ed where e: "e = PDict ed"
    by (cases e) (auto simp: classes_ok_def)
  from k e obtain d where d: "map_of ed ''data'' = Some (PDict d)"
    by (auto simp: search_node_def search_edge_def elem_field_def
        split: option.splits pyval.splits sum.splits)
  from c e obtain cs where cs: "py_get e ''classes'' (PStr []) = Inr (PStr cs)"
    and n: "count_list (py_split cs) ''highlighted'' \<le> 1"
    by (auto simp: classes_ok_def split: option.splits pyval.splits)
  from cs e have "map_of ed ''classes'' = None \<or> map_of ed ''classes'' = Some (PStr cs)"
    by (auto split: option.splits)
  with e d cs n show thesis by (rule that)
qed


lemma key_absent: "map_of al k = None \<longleftrightarrow> k \<notin> set (map fst al)"
  by (simp add: map_of_eq_None_iff)

lemma no_highlight_after_filter:
  "count_list (filter (\<lambda>t. t \<noteq> x) xs) x = 0"
  by (simp add: count_list_0_iff)

lemma clear_elem_ok:
  assumes "search_elem e"
  shows "\<exists>e1. clear_elem e = Inr e1 \<and> cleared e e1"
proof -
  from assms obtain ed d cs where e: "e = PDict ed"
    and d: "map_of ed ''data'' = Some (PDict d)"
    and cs: "py_get e ''classes'' (PStr []) = Inr (PStr cs)"
    and n: "count_list (py_split cs) ''highlighted'' \<le> 1"
    and k: "map_of ed ''classes'' = None \<or> map_of ed ''classes'' = Some (PStr cs)"
    by (rule search_elem_shape)
  from k show ?thesis
  proof
    assume none: "map_of ed ''classes'' = None"
    then have "''classes'' \<notin> set (map fst ed)"
      using key_absent [of ed "''classes''"] by blast
    then have c: "clear_elem e = Inr e" by (simp add: clear_elem_def e)
    from none cs have "cs = []" by (simp add: e)
    then have "elem_classes e = []" by (simp add: elem_classes_def cs py_split_def)
    moreover from assms have "classes_ok e" by (simp add: search_elem_def)
    ultimately have "cleared e e" by (simp add: cleared_def e)
    with c show ?thesis by blast
  next
    assume some: "map_of ed ''classes'' = Some (PStr cs)"
    define c1 where "c1 = join_sp (remove1 ''highlighted'' (py_split cs))"
    define e1 where "e1 = PDict (AList.update ''classes'' (PStr c1) ed)"
    from some have "''classes'' \<in> set (map fst ed)"
      using key_absent [of ed "''classes''"] by auto
    with some have c: "clear_elem e = Inr e1"
      by (simp add: clear_elem_def e e1_def c1_def)
    have "\<forall>w\<in>set (remove1 ''highlighted'' (py_split cs)). token w"
      using set_remove1_subset [of "''highlighted''" "py_split cs"]
      by (auto dest: py_split_tokens)
    then have "py_split c1 = remove1 ''highlighted'' (py_split cs)"
      unfolding c1_def by (rule py_split_join)
    with n have sp: "py_split c1 = filter (\<lambda>t. t \<noteq> ''highlighted'') (py_split cs)"
      by (simp add: remove1_once)
    have g: "py_get e1 ''classes'' (PStr []) = Inr (PStr c1)"
      by (simp add: e1_def update_conv')
    have "same_but_classes e e1" by (simp add: e e1_def filter_update_classes)
    moreover have "py_getitem e1 ''data'' = py_getitem e ''data''"
      by (simp add: e e1_def map_of_update_other)
    moreover have "classes_ok e1"
      by (simp add: classes_ok_def g sp no_highlight_after_filter)
    moreover have "elem_classes e1 = filter (\<lambda>t. t \<noteq> ''highlighted'') (elem_classes e)"
      by (simp add: elem_classes_def g cs sp)
    ultimately have "cleared e e1" by (simp add: cleared_def)
    with c show ?thesis by blast
  qed
qed


lemma mark_elem_ok:
  assumes kind: "search_node e1 \<or> search_edge e1" and ok: "classes_ok e1"
    and nh: "''highlighted'' \<notin> set (elem_classes e1)"
  shows "\<exists>e2. mark_elem m e1 = Inr e2 \<and> marked m e1 e2"
proof -
  from kind ok have "search_elem e1" by (simp add: search_elem_def)
  then obtain ed d cs where e: "e1 = PDict ed"
    and d: "map_of ed ''data'' = Some (PDict d)"
    and cs: "py_get e1 ''classes'' (PStr []) = Inr (PStr cs)"
    by (rule search_elem_shape)
  have cl: "elem_classes e1 = py_split cs" by (simp add: elem_classes_def cs)
  have edge: "search_edge e1 \<longleftrightarrow> ''source'' \<in> set (map fst d) \<and> ''target'' \<in> set (map fst d)"
    by (simp add: search_edge_def e d)
  show ?thesis
  proof (cases "search_edge e1")
    case True
    with edge have "mark_elem m e1 = Inr e1" by (simp add: mark_elem_def e d)
    moreover from True have "marked m e1 e1" by (simp add: marked_def e)
    ultimately show ?thesis by blast
  next
    case False
    with kind have node: "search_node e1" by simp
    then obtain l where l: "map_of d ''label'' = Some (PStr l)"
      by (auto simp: search_node_def elem_field_def e d split: option.splits pyval.splits)
    then have lo: "label_of e1 = l" by (simp add: label_of_def elem_field_def e d)
    define new where "new =
       (if list_ex (\<lambda>x. py_eq x (PStr l)) m then py_split cs @ [''highlighted'']
        else py_split cs)"
    define e2 where "e2 = PDict (AList.update ''classes'' (PStr (join_sp new)) ed)"
    from nh have r: "remove1 ''highlighted'' (py_split cs) = py_split cs"
      by (simp add: cl remove1_idem)
    from False edge have skip: "\<not> (''source'' \<in> set (map fst d) \<and> ''target'' \<in> set (map fst d))"
      by simp
    from nh have nh': "''highlighted'' \<notin> set (py_split cs)" by (simp add: cl)
    from cs have cs': "(case map_of ed ''classes'' of None \<Rightarrow> PStr [] | Some v \<Rightarrow> v) = PStr cs"
      by (simp add: e)
    have m: "mark_elem m e1 = Inr e2"
      using skip nh'
      by (auto simp: mark_elem_def e d l r e2_def new_def cs')
    have "\<forall>w\<in>set new. token w"
      by (auto simp: new_def token_highlighted dest: py_split_tokens)
    then have sp: "py_split (join_sp new) = new" by (rule py_split_join)
    have g: "py_get e2 ''classes'' (PStr []) = Inr (PStr (join_sp new))"
      by (simp add: e2_def update_conv')
    have "same_but_classes e1 e2" by (simp add: e e2_def filter_update_classes)
    moreover have "elem_classes e2 = new" by (simp add: elem_classes_def g sp)
    ultimately have "marked m e1 e2"
      using False by (simp add: marked_def lo new_def cl)
    with m show ?thesis by blast
  qed
qed

lemma loop_partial_ok:
  assumes "\<And>x. x \<in> set xs \<Longrightarrow> \<exists>y. f x = Inr y \<and> R x y"
  shows "\<exists>ys. loop_partial f xs = (ys, None) \<and> list_all2 R xs ys"
  using assms
proof (induction xs)
  case Nil
  show ?case by simp
next
  case (Cons x xs)
  from Cons.prems [of x] obtain y where y: "f x = Inr y" "R x y" by auto
  from Cons.IH Cons.prems obtain ys where ys: "loop_partial f xs = (ys, None)" "list_all2 R xs ys"
    by auto
  from y ys show ?case by simp
qed

lemma cleared_kind:
  assumes "cleared e e1"
  shows "search_node e1 = search_node e" and "search_edge e1 = search_edge e"
    and "label_of e1 = label_of e"
  using assms
  by (simp_all add: cleared_def search_node_def search_edge_def label_of_def elem_field_def
      is_node_elem_def)

lemma search_edge_E:
  assumes "search_edge e"
  obtains d where "py_getitem e ''data'' = Inr (PDict d)"
    and "''source'' \<in> set (map fst d)" and "''target'' \<in> set (map fst d)"
    and "is_node_elem e = Inr False"
proof -
  from assms obtain d where d: "py_getitem e ''data'' = Inr (PDict d)"
    and s: "''source'' \<in> set (map fst d)" and t: "''target'' \<in> set (map fst d)"
    by (auto simp: search_edge_def split: sum.splits pyval.splits)
  from d s have "is_node_elem e = Inr False" by (simp add: is_node_elem_def)
  with d s t show thesis by (rule that)
qed

lemma search_node_E:
  assumes "search_node e"
  obtains d l where "py_getitem e ''data'' = Inr d" and "py_getitem d ''label'' = Inr (PStr l)"
    and "is_node_elem e = Inr True" and "label_of e = l"
proof -
  from assms have n: "is_node_elem e = Inr True"
    and "case elem_field ''label'' e of Some (PStr l) \<Rightarrow> True | _ \<Rightarrow> False"
    by (simp_all add: search_node_def)
  then obtain l where l: "elem_field ''label'' e = Some (PStr l)"
    by (auto split: option.splits pyval.splits)
  then obtain d where d: "py_getitem e ''data'' = Inr d" "py_getitem d ''label'' = Inr (PStr l)"
    by (auto simp: elem_field_def split: sum.splits)
  from l have "label_of e = l" by (simp add: label_of_def)
  with d n show thesis by (rule that)
qed

lemma node_not_edge:
  assumes "search_node e"
  shows "\<not> search_edge e"
proof
  assume "search_edge e"
  then have "is_node_elem e = Inr False" by (rule search_edge_E)
  moreover from assms have "is_node_elem e = Inr True" by (rule search_node_E)
  ultimately show False by simp
qed

lemma same_but_classes_trans:
  "same_but_classes a b \<Longrightarrow> same_but_classes b c \<Longrightarrow> same_but_classes a c"
  by (cases a; cases b; cases c) simp_all

lemma collect_labels_ok:
  assumes "list_all search_elem es"
  shows "collect_labels es = Inr (map PStr (map label_of (filter search_node es)))"
  using assms
proof (induction es)
  case Nil
  show ?case by simp
next
  case (Cons e es)
  then have ih: "collect_labels es = Inr (map PStr (map label_of (filter search_node es)))"
    and e: "search_node e \<or> search_edge e" by (simp_all add: search_elem_def)
  show ?case
  proof (cases "search_node e")
    case True
    then obtain d l where "py_getitem e ''data'' = Inr d" "py_getitem d ''label'' = Inr (PStr l)"
      "is_node_elem e = Inr True" "label_of e = l"
      by (rule search_node_E)
    with True ih show ?thesis by simp
  next
    case False
    with e have edge: "search_edge e" by simp
    then have "is_node_elem e = Inr False" by (rule search_edge_E)
    with False ih show ?thesis by simp
  qed
qed

lemma in_string_labels: "list_ex (\<lambda>x. py_eq x (PStr l)) (map PStr L) \<longleftrightarrow> l \<in> set L"
  by (induction L) auto

lemma list_all2_rhs:
  assumes "list_all2 R xs ys" and "y \<in> set ys"
  shows "\<exists>x\<in>set xs. R x y"
  using assms by (induction rule: list_all2_induct) auto

subsection \<open>The search branch\<close>

lemma cleared_post:
  assumes "cleared e e1"
    and "search_node e \<Longrightarrow> \<not> (q \<noteq> [] \<and> label_matches q (label_of e))"
  shows "search_post q e e1"
proof -
  from assms(1) have s: "same_but_classes e e1"
    and c: "elem_classes e1 = filter (\<lambda>t. t \<noteq> ''highlighted'') (elem_classes e)"
    by (simp_all add: cleared_def)
  from c have "\<not> is_highlighted e1" by (simp add: is_highlighted_def)
  with s c assms(2) show ?thesis by (auto simp: search_post_def)
qed

lemma marked_post:
  assumes "cleared e e1" and "marked m e1 e2"
    and "q \<noteq> []"
    and "search_node e \<Longrightarrow>
           list_ex (\<lambda>x. py_eq x (PStr (label_of e))) m \<longleftrightarrow> label_matches q (label_of e)"
  shows "search_post q e e2"
proof -
  from assms(1) have s1: "same_but_classes e e1"
    and c1: "elem_classes e1 = filter (\<lambda>t. t \<noteq> ''highlighted'') (elem_classes e)"
    by (simp_all add: cleared_def)
  note k = cleared_kind [OF assms(1)]
  from assms(2) have s2: "same_but_classes e1 e2"
    and c2: "elem_classes e2 =
         (if \<not> search_edge e \<and> list_ex (\<lambda>x. py_eq x (PStr (label_of e))) m
          then elem_classes e1 @ [''highlighted'']
          else elem_classes e1)"
    by (simp_all add: marked_def k)
  from s1 s2 have s: "same_but_classes e e2" by (rule same_but_classes_trans)
  have f: "filter (\<lambda>t. t \<noteq> ''highlighted'') (elem_classes e2)
             = filter (\<lambda>t. t \<noteq> ''highlighted'') (elem_classes e)"
    by (simp add: c2 c1)
  have h: "is_highlighted e2 \<longleftrightarrow>
             \<not> search_edge e \<and> list_ex (\<lambda>x. py_eq x (PStr (label_of e))) m"
    by (simp add: is_highlighted_def c2 c1)
  have n: "search_node e \<longrightarrow> (is_highlighted e2 \<longleftrightarrow> q \<noteq> [] \<and> label_matches q (label_of e))"
    using assms(3) assms(4) node_not_edge [of e] by (auto simp: h)
  have "search_edge e \<longrightarrow> \<not> is_highlighted e2" by (simp add: h)
  with s f n show ?thesis by (simp add: search_post_def)
qed

lemma search_branch_ok:
  assumes es: "current_elements inp = PList es" and wf: "list_all search_elem es"
    and q: "query_text (search_value inp) = Some q"
  shows "\<exists>es'. search_branch inp = (defaults inp)\<lparr>new_elements := PList es',
                   node_info := node_info (search_branch inp)\<rparr>
           \<and> list_all2 (search_post q) es es'"
proof -
  define R where "R = (\<lambda>e e1. e \<in> set es \<and> search_elem e \<and> cleared e e1)"
  have "\<exists>y. clear_elem x = Inr y \<and> R x y" if "x \<in> set es" for x
    using that wf clear_elem_ok [of x] by (auto simp: R_def list_all_iff)
  from loop_partial_ok [of es clear_elem R, OF this] obtain es1 where
    c: "loop_partial clear_elem es = (es1, None)" and r1: "list_all2 R es es1"
    by blast
  define L where "L = map label_of (filter search_node es)"
  have lab: "collect_labels es = Inr (map PStr L)"
    unfolding L_def using wf by (rule collect_labels_ok)
  have inL: "label_of e \<in> set L" if "e \<in> set es" "search_node e" for e
    using that by (simp add: L_def)
  show ?thesis
  proof (cases "q = []")
    case True
    with q have "\<not> truthy (search_value inp)"
      by (cases "search_value inp") simp_all
    then have b: "search_branch inp = (defaults inp)\<lparr>new_elements := PList es1,
           node_info := Message ''Search cleared. All nodes are visible.''\<rparr>"
      by (simp add: search_branch_def es c)
    have "list_all2 (search_post q) es es1"
      using r1 by (rule list_all2_mono) (simp add: R_def True cleared_post)
    with b show ?thesis by (intro exI [of _ es1]) simp
  next
    case False
    with q have sv: "search_value inp = PStr q"
      by (cases "search_value inp") simp_all
    with False have tr: "truthy (search_value inp)" by simp
    define m where "m = map PStr (filter (label_matches q) L)"
    have pm: "perform_fuzzy_search (search_value inp) (map PStr L) = m"
      using False by (simp add: sv perform_fuzzy_search_strings m_def)
    have inm: "list_ex (\<lambda>x. py_eq x (PStr (label_of e))) m \<longleftrightarrow> label_matches q (label_of e)"
      if "e \<in> set es" "search_node e" for e
      using inL [OF that] by (simp add: m_def in_string_labels)
    show ?thesis
    proof (cases "m = []")
      case True
      have b: "search_branch inp = (defaults inp)\<lparr>new_elements := PList es1,
           node_info := Message ''No matching nodes found.''\<rparr>"
        using tr by (simp add: search_branch_def es c lab pm True)
      have "search_post q e e1" if "R e e1" for e e1
      proof (rule cleared_post)
        from that show "cleared e e1" by (simp add: R_def)
        assume "search_node e"
        with that have "list_ex (\<lambda>x. py_eq x (PStr (label_of e))) m \<longleftrightarrow> label_matches q (label_of e)"
          by (intro inm) (simp_all add: R_def)
        with True show "\<not> (q \<noteq> [] \<and> label_matches q (label_of e))" by simp
      qed
      with r1 have "list_all2 (search_post q) es es1" by (rule list_all2_mono)
      with b show ?thesis by (intro exI [of _ es1]) simp
    next
      case nonempty: False
      have "\<exists>y. mark_elem m x = Inr y \<and> marked m x y" if "x \<in> set es1" for x
      proof -
        from list_all2_rhs [OF r1 that] obtain e where e: "search_elem e" "cleared e x"
          by (auto simp: R_def)
        note k = cleared_kind [OF e(2)]
        from e(1) have "search_node x \<or> search_edge x" by (simp add: search_elem_def k)
        moreover from e(2) have "classes_ok x" by (simp add: cleared_def)
        moreover from e(2) have "''highlighted'' \<notin> set (elem_classes x)"
          by (simp add: cleared_def)
        ultimately show ?thesis by (rule mark_elem_ok)
      qed
      from loop_partial_ok [of es1 "mark_elem m" "marked m", OF this] obtain es2 where
        mk: "loop_partial (mark_elem m) es1 = (es2, None)" and r2: "list_all2 (marked m) es1 es2"
        by blast
      have b: "search_branch inp = (defaults inp)\<lparr>new_elements := PList es2,
           node_info := Message ''Matching nodes highlighted.''\<rparr>"
        using tr nonempty by (simp add: search_branch_def es c lab pm mk)
      have "search_post q e e2" if "R e e1" "marked m e1 e2" for e e1 e2
      proof (rule marked_post)
        from that show "cleared e e1" and "marked m e1 e2" by (simp_all add: R_def)
        show "q \<noteq> []" by (rule False)
        assume "search_node e"
        with that show "list_ex (\<lambda>x. py_eq x (PStr (label_of e))) m
                          \<longleftrightarrow> label_matches q (label_of e)"
          by (intro inm) (simp_all add: R_def)
      qed
      then have "list_all2 (search_post q) es es2"
        using r1 r2 by (rule list_all2_trans)
      with b show ?thesis by (intro exI [of _ es2]) simp
    qed
  qed
qed

text \<open>
  On well-formed elements the search does what is expected of it. For a list of
  well-formed elements (each a node or an edge, its classes a string that names
  \<^verbatim>\<open>'highlighted'\<close> at most once) and a query that is a string or \<^verbatim>\<open>None\<close>, one search
  dispatch returns normally and leaves the store, zoom and pan as they are. The
  returned elements correspond one to one to the current ones: all fields but
  \<^verbatim>\<open>classes\<close> are unchanged, and so are the classes other than \<^verbatim>\<open>'highlighted'\<close>; a node
  is highlighted afterwards exactly when the query is not empty and its label before
  the dispatch matches; an edge is not highlighted; after an empty query no element is
  highlighted.
\<close>

lemma search_highlights:
  assumes "is_search_event inp" and "current_elements inp = PList es"
    and "list_all search_elem es" and "query_text (search_value inp) = Some q"
  shows "\<exists>out es'. handle_interactions w inp = (Inr out, w)
           \<and> new_elements out = PList es'
           \<and> list_all2 (search_post q) es es'
           \<and> new_zoom out = current_zoom inp \<and> new_pan out = current_pan inp
           \<and> (q = [] \<longrightarrow> \<not> list_ex is_highlighted es')"
proof -
  from search_branch_ok [OF assms(2-4)] obtain es' where
    b: "search_branch inp = (defaults inp)\<lparr>new_elements := PList es',
                   node_info := node_info (search_branch inp)\<rparr>"
    and p: "list_all2 (search_post q) es es'" by blast
  from assms(1) have h: "handle_interactions w inp = (Inr (search_branch inp), w)"
    by (simp add: is_search_event_def handle_interactions_def)
  have o: "new_elements (search_branch inp) = PList es'"
    "new_zoom (search_branch inp) = current_zoom inp"
    "new_pan (search_branch inp) = current_pan inp"
    by (subst b, simp add: defaults_def)+
  have e: "\<not> list_ex is_highlighted es'" if "q = []"
  proof
    assume "list_ex is_highlighted es'"
    then obtain e' where e': "e' \<in> set es'" "is_highlighted e'" by (auto simp: list_ex_iff)
    from list_all2_rhs [OF p e'(1)] obtain e where "e \<in> set es" "search_post q e e'" by blast
    moreover from this(1) assms(3) have "search_node e \<or> search_edge e"
      by (simp add: list_all_iff search_elem_def)
    ultimately show False using e'(2) that by (auto simp: search_post_def)
  qed
  from h o p e show ?thesis by blast
qed

lemma search_highlights_example:
  "is_search_event (search_for ''COMP'' [functions_node, compute_node, compute_edge])
   \<and> list_all search_elem [functions_node, compute_node, compute_edge]
   \<and> query_text (search_value (search_for ''COMP'' [functions_node, compute_node, compute_edge]))
       = Some ''COMP''
   \<and> (\<exists>out es'. handle_interactions fresh_world
                    (search_for ''COMP'' [functions_node, compute_node, compute_edge])
                  = (Inr out, fresh_world)
          \<and> new_elements out = PList es'
          \<and> list_all2 (search_post ''COMP'') [functions_node, compute_node, compute_edge] es')"
proof -
  define inp where "inp = search_for ''COMP'' [functions_node, compute_node, compute_edge]"
  have a: "is_search_event inp"
    by (simp add: inp_def search_for_def is_search_event_def no_event_def triggered_id_def)
  have b: "current_elements inp = PList [functions_node, compute_node, compute_edge]"
    by (simp add: inp_def search_for_def)
  have c: "list_all search_elem [functions_node, compute_node, compute_edge]"
    by (simp add: search_elem_def search_node_def search_edge_def classes_ok_def
        is_node_elem_def elem_field_def py_split_def is_space_def
        functions_node_def compute_node_def compute_edge_def)
  have d: "query_text (search_value inp) = Some ''COMP''"
    by (simp add: inp_def search_for_def)
  from search_highlights [OF a b c d, of fresh_world] a c d show ?thesis
    unfolding inp_def by blast
qed

text \<open>
  Claim C7 at a failing input. The first loop is meant to remove \<^verbatim>\<open>'highlighted'\<close> from
  every element, but \<^verbatim>\<open>classes.remove('highlighted')\<close> removes one occurrence only: a
  node whose classes are \<^verbatim>\<open>'highlighted highlighted'\<close> comes back with classes
  \<^verbatim>\<open>'highlighted'\<close> after an empty query, still highlighted.
\<close>

theorem search_empty_query_keeps_duplicate_marker:
  "is_search_event (search_for [] [marked_twice])
   \<and> handle_interactions fresh_world (search_for [] [marked_twice])
       = (Inr (search_branch (search_for [] [marked_twice])), fresh_world)
   \<and> search_node marked_twice
   \<and> new_elements (search_branch (search_for [] [marked_twice])) = PList [marked_once]
   \<and> is_highlighted marked_once"
  by (simp add: search_for_def is_search_event_def no_event_def triggered_id_def
      handle_interactions_def search_branch_def clear_elem_def py_split_def is_space_def
      marked_twice_def marked_once_def is_highlighted_def elem_classes_def defaults_def
      search_node_def is_node_elem_def elem_field_def)

section \<open>Properties of the graph document builder\<close>

lemma primary_loop_ids:
  "map node_id (fst (primary_loop cid i ps)) = map fst ps"
  "map edge_ends (snd (primary_loop cid i ps)) = map (\<lambda>p. (cid, fst p)) ps"
  by (induction cid i ps rule: primary_loop.induct)
    (auto simp: edge_ends_def mk_edge_def split: prod.splits)

lemma child_loop_ids:
  "map node_id (fst (child_loop pid col cs)) = map fst cs"
  "map edge_ends (snd (child_loop pid col cs)) = map (\<lambda>c. (pid, fst c)) cs"
  by (induction pid col cs rule: child_loop.induct)
    (auto simp: edge_ends_def mk_edge_def split: prod.splits)

lemma child_loop_res:
  assumes "child_loop pid col cs = (ns, es)"
  shows "map node_id ns = map fst cs" and "map edge_ends es = map (\<lambda>c. (pid, fst c)) cs"
  using child_loop_ids [of pid col cs] assms by simp_all

lemma subnode_loop_ids:
  "map node_id (fst (subnode_loop ns es s)) =
     map node_id ns @ concat (map (\<lambda>(pid, cs). map fst cs) s)"
  "map edge_ends (snd (subnode_loop ns es s)) =
     map edge_ends es @ concat (map (\<lambda>(pid, cs). map (\<lambda>c. (pid, fst c)) cs) s)"
  by (induction ns es s rule: subnode_loop.induct)
    (auto simp: child_loop_res split: prod.splits)

lemma build_graph_ids:
  assumes "build_graph c p s = Inr (ns, es)"
  shows "\<exists>cid. map_of c ''id'' = Some cid
           \<and> map node_id ns = taxonomy_ids cid p s
           \<and> map edge_ends es = map (\<lambda>q. (cid, fst q)) p
                @ concat (map (\<lambda>(pid, cs). map (\<lambda>c. (pid, fst c)) cs) s)"
proof -
  from assms obtain cid where cid: "map_of c ''id'' = Some cid"
    by (auto simp: build_graph_def split: option.splits)
  from assms cid obtain cl where cl: "map_of c ''label'' = Some cl"
    by (auto simp: build_graph_def split: option.splits)
  from assms cid cl obtain cdsc where cdsc: "map_of c ''description'' = Some cdsc"
    by (auto simp: build_graph_def split: option.splits)
  define central where "central =
                 \<lparr>node_id = cid,
                  node_label = replace_underscores cl,
                  node_description = cdsc,
                  node_notes = (case map_of c ''notes'' of
                                  Some n \<Rightarrow> n | None \<Rightarrow> []),
                  node_color = ''#87CEEB'',
                  node_classes = ''central-node''\<rparr>"
  have central: "node_id central = cid" by (simp add: central_def)
  have r: "subnode_loop (central # fst (primary_loop cid 0 p)) (snd (primary_loop cid 0 p)) s
              = (ns, es)"
    using assms by (simp add: build_graph_def cid cl cdsc Let_def case_prod_unfold central_def)
  from subnode_loop_ids [of "central # fst (primary_loop cid 0 p)" "snd (primary_loop cid 0 p)" s]
  have "map node_id ns = taxonomy_ids cid p s"
    and "map edge_ends es = map (\<lambda>q. (cid, fst q)) p
                @ concat (map (\<lambda>(pid, cs). map (\<lambda>c. (pid, fst c)) cs) s)"
    unfolding r by (simp_all add: primary_loop_ids central taxonomy_ids_def)
  with cid show ?thesis by blast
qed

lemma is_node_elem_built:
  "is_node_elem (node_elem n) = Inr True" "is_node_elem (edge_elem e) = Inr False"
  by (simp_all add: is_node_elem_def node_elem_def edge_elem_def)

lemma elem_field_built:
  "elem_field ''id'' (node_elem n) = Some (PStr (node_id n))"
  "elem_field ''source'' (edge_elem e) = Some (PStr (edge_source e))"
  "elem_field ''target'' (edge_elem e) = Some (PStr (edge_target e))"
  by (simp_all add: elem_field_def node_elem_def edge_elem_def)

lemma doc_parts_built:
  "doc_nodes (map node_elem ns @ map edge_elem es) = map node_elem ns"
  "doc_edges (map node_elem ns @ map edge_elem es) = map edge_elem es"
  "doc_node_ids (map node_elem ns @ map edge_elem es) = map (\<lambda>n. Some (PStr (node_id n))) ns"
  by (simp_all add: doc_nodes_def doc_edges_def doc_node_ids_def filter_map o_def
      is_node_elem_built elem_field_built)

lemma resolved_built:
  "targets_resolved (map node_elem ns @ map edge_elem es)
     \<longleftrightarrow> (\<forall>q\<in>set (map edge_ends es). snd q \<in> set (map node_id ns))"
  "sources_resolved (map node_elem ns @ map edge_elem es)
     \<longleftrightarrow> (\<forall>q\<in>set (map edge_ends es). fst q \<in> set (map node_id ns))"
  "node_ids_unique (map node_elem ns @ map edge_elem es) \<longleftrightarrow> distinct (map node_id ns)"
  by (auto simp: targets_resolved_def sources_resolved_def node_ids_unique_def doc_parts_built
      list_all_iff elem_field_built edge_ends_def distinct_map inj_on_def)

lemma child_targets:
  "map snd (concat (map (\<lambda>(pid, cs). map (\<lambda>c. (pid, fst c)) cs) s))
     = concat (map (\<lambda>(pid, cs). map fst cs) s)"
  by (induction s) (auto simp: o_def)

lemma child_sources:
  "(\<forall>q\<in>set (concat (map (\<lambda>(pid, cs). map (\<lambda>c. (pid, fst c)) cs) s)). fst q \<in> I)
     \<longleftrightarrow> list_all (\<lambda>(pid, cs). cs = [] \<or> pid \<in> I) s"
proof (induction s)
  case Nil
  show ?case by simp
next
  case (Cons a s)
  obtain pid cs where a: "a = (pid, cs)" by (cases a)
  have "(\<forall>q\<in>set (map (\<lambda>c. (pid, fst c)) cs). fst q \<in> I) \<longleftrightarrow> (cs = [] \<or> pid \<in> I)"
    by (cases cs) auto
  with Cons show ?case by (simp add: a ball_Un)
qed

text \<open>
  Claim C5, as the code has it. When the builder returns a document: every edge's
  target is the id of a node; every edge's source is the id of a node exactly when each
  parent in the subcategory mapping that has children is the central id, a primary id or
  a child id; and the node ids are unique exactly when the central id, the primary ids
  and all child ids are pairwise different.
\<close>

theorem load_graph_elements_invariant:
  assumes "load_graph_elements c p s = Inr es"
  shows "\<exists>cid. map_of c ''id'' = Some cid
           \<and> targets_resolved es
           \<and> (sources_resolved es \<longleftrightarrow> parents_known cid p s)
           \<and> (node_ids_unique es \<longleftrightarrow> distinct (taxonomy_ids cid p s))"
proof -
  from assms obtain ns gs where b: "build_graph c p s = Inr (ns, gs)"
    and es: "es = map node_elem ns @ map edge_elem gs"
    by (auto simp: load_graph_elements_def split: sum.splits)
  from build_graph_ids [OF b] obtain cid where cid: "map_of c ''id'' = Some cid"
    and ids: "map node_id ns = taxonomy_ids cid p s"
    and ends: "map edge_ends gs = map (\<lambda>q. (cid, fst q)) p
                @ concat (map (\<lambda>(pid, cs). map (\<lambda>c. (pid, fst c)) cs) s)"
    by blast
  have tg: "map snd (map edge_ends gs) = tl (taxonomy_ids cid p s)"
    unfolding ends by (simp add: taxonomy_ids_def child_targets o_def)
  have "set (tl xs) \<subseteq> set xs" for xs :: "string list"
    by (cases xs) auto
  then have "set (map snd (map edge_ends gs)) \<subseteq> set (taxonomy_ids cid p s)"
    unfolding tg .
  then have t: "targets_resolved es"
    unfolding es resolved_built ids by auto
  have u: "node_ids_unique es \<longleftrightarrow> distinct (taxonomy_ids cid p s)"
    unfolding es resolved_built ids ..
  have c0: "cid \<in> set (taxonomy_ids cid p s)" by (simp add: taxonomy_ids_def)
  have v1: "\<forall>q\<in>set (map (\<lambda>q. (cid, fst q)) p). fst q \<in> set (taxonomy_ids cid p s)"
    using c0 by simp
  have "sources_resolved es \<longleftrightarrow>
          (\<forall>q\<in>set (map (\<lambda>q. (cid, fst q)) p). fst q \<in> set (taxonomy_ids cid p s))
          \<and> (\<forall>q\<in>set (concat (map (\<lambda>(pid, cs). map (\<lambda>c. (pid, fst c)) cs) s)).
                fst q \<in> set (taxonomy_ids cid p s))"
    unfolding es resolved_built ids ends by (simp only: set_append ball_Un)
  also have "\<dots> \<longleftrightarrow> parents_known cid p s"
    unfolding parents_known_def child_sources using v1 by blast
  finally have v: "sources_resolved es \<longleftrightarrow> parents_known cid p s" .
  from cid t u v show ?thesis by blast
qed


theorem load_graph_elements_invariant_witness:
  "load_graph_elements azure [(''Compute'', ''Compute services in Azure'')]
       [(''Compute'', [(''Functions'', ''Azure Functions'')])]
     = Inr (projr (load_graph_elements azure [(''Compute'', ''Compute services in Azure'')]
       [(''Compute'', [(''Functions'', ''Azure Functions'')])]))
   \<and> targets_resolved (projr (load_graph_elements azure
       [(''Compute'', ''Compute services in Azure'')]
       [(''Compute'', [(''Functions'', ''Azure Functions'')])]))
   \<and> sources_resolved (projr (load_graph_elements azure
       [(''Compute'', ''Compute services in Azure'')]
       [(''Compute'', [(''Functions'', ''Azure Functions'')])]))
   \<and> node_ids_unique (projr (load_graph_elements azure
       [(''Compute'', ''Compute services in Azure'')]
       [(''Compute'', [(''Functions'', ''Azure Functions'')])]))"
proof -
  define P where "P = [(''Compute'', ''Compute services in Azure'')]"
  define S where "S = [(''Compute'', [(''Functions'', ''Azure Functions'')])]"
  have h: "load_graph_elements azure P S = Inr (projr (load_graph_elements azure P S))"
    by (simp add: load_graph_elements_def build_graph_def azure_def Let_def case_prod_unfold)
  from load_graph_elements_invariant [OF h] obtain cid where
    cid: "map_of azure ''id'' = Some cid"
    and t: "targets_resolved (projr (load_graph_elements azure P S))"
    and v: "sources_resolved (projr (load_graph_elements azure P S)) \<longleftrightarrow> parents_known cid P S"
    and u: "node_ids_unique (projr (load_graph_elements azure P S))
              \<longleftrightarrow> distinct (taxonomy_ids cid P S)"
    by blast
  from cid have c: "cid = ''Azure_Architectures''" by (simp add: azure_def)
  have "parents_known cid P S" and "distinct (taxonomy_ids cid P S)"
    by (simp_all add: c parents_known_def taxonomy_ids_def P_def S_def)
  with h t u v show ?thesis unfolding P_def S_def by blast
qed

text \<open>
  Claim C5 as stated fails on two taxonomies: a subcategory mapping whose parent is not
  a category gives an edge whose source is no node, and a subcategory listed under two
  categories gives two nodes with one id.
\<close>

theorem load_graph_elements_invariant_counterexample:
  "load_graph_elements azure [] [(''Orphan'', [(''Child'', ''d'')])]
     = Inr (projr (load_graph_elements azure [] [(''Orphan'', [(''Child'', ''d'')])]))
   \<and> \<not> sources_resolved
         (projr (load_graph_elements azure [] [(''Orphan'', [(''Child'', ''d'')])]))
   \<and> load_graph_elements azure [(''Compute'', ''c''), (''Integration'', ''i'')]
         [(''Compute'', [(''Functions'', ''f'')]), (''Integration'', [(''Functions'', ''f'')])]
     = Inr (projr (load_graph_elements azure [(''Compute'', ''c''), (''Integration'', ''i'')]
         [(''Compute'', [(''Functions'', ''f'')]), (''Integration'', [(''Functions'', ''f'')])]))
   \<and> \<not> node_ids_unique
         (projr (load_graph_elements azure [(''Compute'', ''c''), (''Integration'', ''i'')]
         [(''Compute'', [(''Functions'', ''f'')]), (''Integration'', [(''Functions'', ''f'')])]))"
  by (simp add: load_graph_elements_def build_graph_def azure_def Let_def mk_edge_def
      sources_resolved_def node_ids_unique_def doc_node_ids_def doc_nodes_def doc_edges_def
      is_node_elem_built elem_field_built)

end
